theory Spec2Isabelle
  imports Complex_Main "HOL-Library.AList"
begin

section \<open>JavaScript values\<close>

text \<open>
  The handlers of \<^verbatim>\<open>colis.js\<close> (packages and shipment slots) and of the reservations
  router read their input from a parsed JSON body, from path parameters and from query
  parameters. A body is a JSON object: an association list from property names to JSON
  values, in the order of \<^verbatim>\<open>Object.keys\<close>. A JSON number is a finite double; it is
  modelled by the rational it denotes, so comparisons and truthiness are exact.
  \<open>JUndefined\<close> is what reading an absent property gives.
\<close>

datatype jsval =
    JUndefined
  | JNull
  | JBool bool
  | JNum rat
  | JStr string
  | JArr "jsval list"
  | JObj "(string \<times> jsval) list"

type_synonym jsobject = "(string \<times> jsval) list"

text \<open>\<^verbatim>\<open>obj[k]\<close> and \<^verbatim>\<open>obj.k\<close>.\<close>

definition js_get :: "jsobject \<Rightarrow> string \<Rightarrow> jsval" where
  "js_get obj k = (case map_of obj k of Some v \<Rightarrow> v | None \<Rightarrow> JUndefined)"

text \<open>\<^verbatim>\<open>Object.keys(obj)\<close>.\<close>

definition keys :: "jsobject \<Rightarrow> string list" where
  "keys obj = map fst obj"

text \<open>JavaScript truthiness, as \<^verbatim>\<open>if (v)\<close>, \<^verbatim>\<open>!v\<close>, \<^verbatim>\<open>a && b\<close> and \<^verbatim>\<open>a || b\<close> test it.\<close>

fun truthy :: "jsval \<Rightarrow> bool" where
  "truthy JUndefined = False"
| "truthy JNull = False"
| "truthy (JBool b) = b"
| "truthy (JNum q) = (q \<noteq> 0)"
| "truthy (JStr s) = (s \<noteq> [])"
| "truthy (JArr xs) = True"
| "truthy (JObj kvs) = True"

text \<open>\<^verbatim>\<open>a || b\<close>.\<close>

definition js_or :: "jsval \<Rightarrow> jsval \<Rightarrow> jsval" where
  "js_or a b = (if truthy a then a else b)"

text \<open>\<^verbatim>\<open>list.includes(v)\<close> for a list of string literals: strict equality.\<close>

definition js_includes :: "string list \<Rightarrow> jsval \<Rightarrow> bool" where
  "js_includes xs v = (case v of JStr s \<Rightarrow> s \<in> set xs | _ \<Rightarrow> False)"

subsection \<open>Numbers from strings\<close>

text \<open>The result of \<^verbatim>\<open>ToNumber\<close>: a finite number, an infinity or NaN.\<close>

datatype jsnum = NumNaN | NumFin rat | NumPosInf | NumNegInf

text \<open>\<^verbatim>\<open>a <= b\<close> on numbers: false as soon as one side is NaN.\<close>

fun num_le :: "jsnum \<Rightarrow> jsnum \<Rightarrow> bool" where
  "num_le NumNaN b = False"
| "num_le a NumNaN = False"
| "num_le NumNegInf b = True"
| "num_le a NumPosInf = True"
| "num_le NumPosInf b = False"
| "num_le a NumNegInf = False"
| "num_le (NumFin a) (NumFin b) = (a \<le> b)"

subsection \<open>Double-precision arithmetic\<close>

text \<open>
  A JavaScript number is a double. The finite ones are rationals; \<open>to_double\<close> is the
  rounding that every arithmetic operation and every conversion to a number ends with:
  to the nearest double, ties to the even significand, and to an infinity from
  \<open>2 ^ 1024\<close> on. (The sign of zero is not modelled.)
\<close>

text \<open>The number of binary digits of a natural number.\<close>

fun bits :: "nat \<Rightarrow> nat" where
  "bits n = (if n = 0 then 0 else Suc (bits (n div 2)))"

declare bits.simps [simp del]

text \<open>The binary exponent \<open>\<lfloor>log\<^sub>2 x\<rfloor>\<close> of a positive rational.\<close>

definition ilog2 :: "rat \<Rightarrow> int" where
  "ilog2 x =
     (if 1 \<le> x then int (bits (nat \<lfloor>x\<rfloor>)) - 1
      else - int (bits (nat (\<lceil>1 / x\<rceil> - 1))))"

definition pow2 :: "int \<Rightarrow> rat" where
  "pow2 e = (if 0 \<le> e then 2 ^ nat e else 1 / 2 ^ nat (- e))"

definition round_half_even :: "rat \<Rightarrow> int" where
  "round_half_even m =
     (let f = \<lfloor>m\<rfloor>; r = m - of_int f
      in if r < 1 / 2 then f else if 1 / 2 < r then f + 1
         else if even f then f else f + 1)"

text \<open>
  A positive rational is rounded to a multiple of the spacing of the doubles around it:
  \<open>2 ^ (e - 52)\<close> for the exponent \<open>e\<close>, and \<open>2 ^ (- 1074)\<close> below \<open>2 ^ (- 1022)\<close>.
\<close>

definition round_pos :: "rat \<Rightarrow> jsnum" where
  "round_pos x =
     (let q = pow2 (max (ilog2 x) (- 1022) - 52);
          y = of_int (round_half_even (x / q)) * q
      in if 2 ^ 1024 \<le> y then NumPosInf else NumFin y)"

fun num_neg :: "jsnum \<Rightarrow> jsnum" where
  "num_neg (NumFin x) = NumFin (- x)"
| "num_neg NumPosInf = NumNegInf"
| "num_neg NumNegInf = NumPosInf"
| "num_neg NumNaN = NumNaN"

definition to_double :: "rat \<Rightarrow> jsnum" where
  "to_double x =
     (if x = 0 then NumFin 0
      else if 0 < x then round_pos x
      else num_neg (round_pos (- x)))"

text \<open>\<^verbatim>\<open>a < b\<close> on numbers.\<close>

definition num_less :: "jsnum \<Rightarrow> jsnum \<Rightarrow> bool" where
  "num_less a b = (num_le a b \<and> a \<noteq> b)"

text \<open>\<^verbatim>\<open>Math.max(a, b)\<close> and \<^verbatim>\<open>Math.min(a, b)\<close>: NaN as soon as one side is NaN.\<close>

definition Math_max :: "jsnum \<Rightarrow> jsnum \<Rightarrow> jsnum" where
  "Math_max a b = (if a = NumNaN \<or> b = NumNaN then NumNaN else if num_le a b then b else a)"

definition Math_min :: "jsnum \<Rightarrow> jsnum \<Rightarrow> jsnum" where
  "Math_min a b = (if a = NumNaN \<or> b = NumNaN then NumNaN else if num_le a b then a else b)"

text \<open>\<^verbatim>\<open>a - b\<close>, \<^verbatim>\<open>a * b\<close> and \<^verbatim>\<open>a / b\<close> on numbers.\<close>

fun num_sub :: "jsnum \<Rightarrow> jsnum \<Rightarrow> jsnum" where
  "num_sub (NumFin a) (NumFin b) = to_double (a - b)"
| "num_sub NumNaN b = NumNaN"
| "num_sub a NumNaN = NumNaN"
| "num_sub NumPosInf NumPosInf = NumNaN"
| "num_sub NumNegInf NumNegInf = NumNaN"
| "num_sub NumPosInf b = NumPosInf"
| "num_sub NumNegInf b = NumNegInf"
| "num_sub a NumPosInf = NumNegInf"
| "num_sub a NumNegInf = NumPosInf"

fun num_mul :: "jsnum \<Rightarrow> jsnum \<Rightarrow> jsnum" where
  "num_mul (NumFin a) (NumFin b) = to_double (a * b)"
| "num_mul NumNaN b = NumNaN"
| "num_mul a NumNaN = NumNaN"
| "num_mul a b =
     (if a = NumFin 0 \<or> b = NumFin 0 then NumNaN
      else if num_le (NumFin 0) a = num_le (NumFin 0) b then NumPosInf
      else NumNegInf)"

fun num_div :: "jsnum \<Rightarrow> jsnum \<Rightarrow> jsnum" where
  "num_div (NumFin a) (NumFin b) =
     (if b \<noteq> 0 then to_double (a / b)
      else if a = 0 then NumNaN
      else if 0 < a then NumPosInf else NumNegInf)"
| "num_div NumNaN b = NumNaN"
| "num_div a NumNaN = NumNaN"
| "num_div (NumFin a) b = NumFin 0"
| "num_div a (NumFin b) =
     (if num_le (NumFin 0) a = (0 \<le> b) then NumPosInf else NumNegInf)"
| "num_div a b = NumNaN"

text \<open>\<^verbatim>\<open>Math.ceil(a)\<close>.\<close>

fun Math_ceil :: "jsnum \<Rightarrow> jsnum" where
  "Math_ceil (NumFin a) = NumFin (of_int \<lceil>a\<rceil>)"
| "Math_ceil a = a"

text \<open>White space (tab, line feed, vertical tab, form feed, carriage return, space).\<close>

definition is_space :: "char \<Rightarrow> bool" where
  "is_space c = ((of_char c :: nat) \<in> {9, 10, 11, 12, 13, 32})"

definition digit_val :: "char \<Rightarrow> nat option" where
  "digit_val c =
     (let n = (of_char c :: nat) in
      if 48 \<le> n \<and> n \<le> 57 then Some (n - 48)
      else if 97 \<le> n \<and> n \<le> 122 then Some (n - 87)
      else if 65 \<le> n \<and> n \<le> 90 then Some (n - 55)
      else None)"

definition is_digit_in :: "nat \<Rightarrow> char \<Rightarrow> bool" where
  "is_digit_in R c = (case digit_val c of Some d \<Rightarrow> d < R | None \<Rightarrow> False)"

definition digits_value :: "nat \<Rightarrow> string \<Rightarrow> nat" where
  "digits_value R s =
     foldl (\<lambda>a c. a * R + (case digit_val c of Some d \<Rightarrow> d | None \<Rightarrow> 0)) 0 s"

definition strip_sign :: "string \<Rightarrow> bool \<times> string" where
  "strip_sign s =
     (case s of
        [] \<Rightarrow> (False, [])
      | c # t \<Rightarrow>
          if c = CHR ''-'' then (True, t)
          else if c = CHR ''+'' then (False, t)
          else (False, s))"

definition has_prefix_0 :: "char \<Rightarrow> char \<Rightarrow> string \<Rightarrow> bool" where
  "has_prefix_0 lo up s =
     (case s of a # b # t \<Rightarrow> a = CHR ''0'' \<and> (b = lo \<or> b = up) | _ \<Rightarrow> False)"

text \<open>
  \<^verbatim>\<open>parseInt(s)\<close> with no radix: leading white space, a sign, an optional
  \<^verbatim>\<open>0x\<close>, then the longest run of digits; \<open>None\<close> is NaN.
\<close>

definition parseInt :: "string \<Rightarrow> int option" where
  "parseInt s =
     (let (neg, S) = strip_sign (dropWhile is_space s);
          hex = has_prefix_0 (CHR ''x'') (CHR ''X'') S;
          R = (if hex then 16 else 10);
          Z = takeWhile (is_digit_in R) (if hex then drop 2 S else S)
      in if Z = [] then None
         else Some ((if neg then - 1 else 1) * int (digits_value R Z)))"

text \<open>
  The number that \<^verbatim>\<open>parseInt(s)\<close> returns: \<open>parseInt\<close> reads the mathematical integer,
  and the result is the double nearest to it.
\<close>

definition parseInt_number :: "string \<Rightarrow> jsnum" where
  "parseInt_number s =
     (case parseInt s of None \<Rightarrow> NumNaN | Some n \<Rightarrow> to_double (of_int n))"

text \<open>
  \<^verbatim>\<open>isNaN(parseInt(v))\<close> for any value: \<^verbatim>\<open>parseInt\<close> first turns \<open>v\<close> into a string.
  The string of a finite number starts with a digit (after a sign); \<^verbatim>\<open>null\<close>,
  \<^verbatim>\<open>true\<close> and \<^verbatim>\<open>[object Object]\<close> do not; the string of an array starts with the
  string of its first element, followed by a comma.
\<close>

fun isNaN_parseInt :: "jsval \<Rightarrow> bool" where
  "isNaN_parseInt (JStr s) = (parseInt s = None)"
| "isNaN_parseInt (JNum q) = False"
| "isNaN_parseInt (JArr (x # xs)) = isNaN_parseInt x"
| "isNaN_parseInt v = True"

definition trim :: "string \<Rightarrow> string" where
  "trim s = rev (dropWhile is_space (rev (dropWhile is_space s)))"

text \<open>The exponent after \<^verbatim>\<open>e\<close>: an optional sign and at least one digit.\<close>

definition signed_integer :: "string \<Rightarrow> int option" where
  "signed_integer s =
     (let (neg, d) = strip_sign s in
      if d \<noteq> [] \<and> dropWhile (is_digit_in 10) d = []
      then Some ((if neg then - 1 else 1) * int (digits_value 10 d))
      else None)"

definition scale10 :: "rat \<Rightarrow> int \<Rightarrow> rat" where
  "scale10 m e = (if 0 \<le> e then m * 10 ^ nat e else m / 10 ^ nat (- e))"

text \<open>
  \<^verbatim>\<open>StrUnsignedDecimalLiteral\<close> without \<^verbatim>\<open>Infinity\<close>: digits, an optional fraction,
  an optional exponent; at least one digit before or after the point.
\<close>

definition unsigned_decimal :: "string \<Rightarrow> rat option" where
  "unsigned_decimal s =
     (let ip = takeWhile (is_digit_in 10) s;
          r1 = dropWhile (is_digit_in 10) s;
          dot = (r1 \<noteq> [] \<and> hd r1 = CHR ''.'');
          fp = (if dot then takeWhile (is_digit_in 10) (tl r1) else []);
          r2 = (if dot then dropWhile (is_digit_in 10) (tl r1) else r1);
          m = of_nat (digits_value 10 ip) + of_nat (digits_value 10 fp) / 10 ^ length fp
      in if ip = [] \<and> fp = [] then None
         else if r2 = [] then Some m
         else if hd r2 = CHR ''e'' \<or> hd r2 = CHR ''E''
           then map_option (scale10 m) (signed_integer (tl r2))
         else None)"

definition str_decimal :: "string \<Rightarrow> jsnum" where
  "str_decimal s =
     (let (neg, u) = strip_sign s in
      if u = ''Infinity'' then (if neg then NumNegInf else NumPosInf)
      else (case unsigned_decimal u of
              None \<Rightarrow> NumNaN
            | Some m \<Rightarrow> NumFin (if neg then - m else m)))"

definition non_decimal :: "string \<Rightarrow> nat option" where
  "non_decimal s =
     (let R = (if has_prefix_0 (CHR ''x'') (CHR ''X'') s then 16
               else if has_prefix_0 (CHR ''o'') (CHR ''O'') s then 8
               else if has_prefix_0 (CHR ''b'') (CHR ''B'') s then 2
               else 0);
          d = drop 2 s
      in if R \<noteq> 0 \<and> d \<noteq> [] \<and> dropWhile (is_digit_in R) d = []
         then Some (digits_value R d) else None)"

text \<open>
  \<^verbatim>\<open>StringToNumber\<close>: the trimmed string is empty (0), a binary, octal or hexadecimal
  literal, or a signed decimal literal; anything else is NaN. The value is the exact
  one (the rounding of very long literals to a double is not modelled).
\<close>

definition StringToNumber :: "string \<Rightarrow> jsnum" where
  "StringToNumber s =
     (let t = trim s in
      if t = [] then NumFin 0
      else (case non_decimal t of
              Some n \<Rightarrow> NumFin (of_nat n)
            | None \<Rightarrow> str_decimal t))"

text \<open>
  \<^verbatim>\<open>ToNumber(v)\<close>. An array goes through its string: the empty array is \<^verbatim>\<open>""\<close>, an
  array of one element is that element's string (empty for null), and a longer one
  holds a comma, which no numeric literal does.
\<close>

fun to_number :: "jsval \<Rightarrow> jsnum" where
  "to_number JUndefined = NumNaN"
| "to_number JNull = NumFin 0"
| "to_number (JBool b) = NumFin (if b then 1 else 0)"
| "to_number (JNum q) = NumFin q"
| "to_number (JStr s) = StringToNumber s"
| "to_number (JObj kvs) = NumNaN"
| "to_number (JArr []) = NumFin 0"
| "to_number (JArr [JUndefined]) = NumFin 0"
| "to_number (JArr [JNull]) = NumFin 0"
| "to_number (JArr [JBool b]) = NumNaN"
| "to_number (JArr [JNum q]) = NumFin q"
| "to_number (JArr [JStr s]) = StringToNumber s"
| "to_number (JArr [JObj kvs]) = NumNaN"
| "to_number (JArr [JArr ys]) = to_number (JArr ys)"
| "to_number (JArr (x # y # zs)) = NumNaN"

text \<open>\<^verbatim>\<open>v <= 0\<close>.\<close>

definition le_zero :: "jsval \<Rightarrow> bool" where
  "le_zero v = num_le (to_number v) (NumFin 0)"

text \<open>\<^verbatim>\<open>s.toUpperCase()\<close> on ASCII letters.\<close>

definition toUpperCase :: "string \<Rightarrow> string" where
  "toUpperCase s =
     map (\<lambda>c. case map_of (zip ''abcdefghijklmnopqrstuvwxyz'' ''ABCDEFGHIJKLMNOPQRSTUVWXYZ'') c of
               Some C \<Rightarrow> C
             | None \<Rightarrow> c) s"

text \<open>The decimal digits of a natural number, as string concatenation renders it.\<close>

definition digit_char :: "nat \<Rightarrow> char" where
  "digit_char d = ''0123456789'' ! d"

fun show_nat :: "nat \<Rightarrow> string" where
  "show_nat n =
     (if n < 10 then [digit_char n]
      else show_nat (n div 10) @ [digit_char (n mod 10)])"

declare show_nat.simps [simp del]

section \<open>The relational store\<close>

text \<open>
  Modelled from the spec: the schema and the connection pool (\<^verbatim>\<open>db.js\<close>) are not among
  the sources. The specification (sections 3 and 6) gives three tables, \<^verbatim>\<open>reservations\<close>,
  \<^verbatim>\<open>creneaux_expedition\<close> (slots) and \<^verbatim>\<open>colis\<close> (packages), integer identifiers, an
  integer maximum capacity, and \<^verbatim>\<open>colis.creneau_id\<close> as a nullable foreign key to
  \<^verbatim>\<open>creneaux_expedition.id\<close>. A row is an association list from column names to values.
  The integer columns (\<^verbatim>\<open>id\<close>, \<^verbatim>\<open>creneau_id\<close>, \<^verbatim>\<open>capacite_max\<close>) hold an integer or
  NULL, and a parameter that is not an integer makes the statement fail; every other
  column keeps the value it is given. A statement that fails changes nothing and is
  answered by the error middleware with status 500.
\<close>

type_synonym row = "(string \<times> jsval) list"

definition col :: "row \<Rightarrow> string \<Rightarrow> jsval" where
  "col r c = (case map_of r c of Some v \<Rightarrow> v | None \<Rightarrow> JNull)"

record store =
  reservations :: "row list"
  creneaux_expedition :: "row list"
  colis :: "row list"

definition is_int :: "rat \<Rightarrow> bool" where
  "is_int q = (of_int \<lfloor>q\<rfloor> = q)"

text \<open>The store's integer input: white space, a sign, decimal digits, white space.\<close>

definition pg_strtoint :: "string \<Rightarrow> int option" where
  "pg_strtoint s =
     (let (neg, S) = strip_sign (dropWhile is_space s);
          Z = takeWhile (is_digit_in 10) S;
          rest = dropWhile (is_digit_in 10) S
      in if Z \<noteq> [] \<and> dropWhile is_space rest = []
         then Some ((if neg then - 1 else 1) * int (digits_value 10 Z))
         else None)"

definition pg_int :: "jsval \<Rightarrow> int option" where
  "pg_int v =
     (case v of
        JNum q \<Rightarrow> if is_int q then Some \<lfloor>q\<rfloor> else None
      | JStr s \<Rightarrow> pg_strtoint s
      | _ \<Rightarrow> None)"

text \<open>
  A statement parameter bound to an integer column (\<open>None\<close>: the statement fails), and
  one bound to any other column. The driver sends \<^verbatim>\<open>undefined\<close> as NULL.
\<close>

definition int_param :: "jsval \<Rightarrow> jsval option" where
  "int_param v =
     (if v = JUndefined \<or> v = JNull then Some JNull
      else map_option (\<lambda>n. JNum (of_int n)) (pg_int v))"

definition any_param :: "jsval \<Rightarrow> jsval" where
  "any_param v = (if v = JUndefined then JNull else v)"

text \<open>SQL equality: never true of NULL.\<close>

definition sql_eq :: "jsval \<Rightarrow> jsval \<Rightarrow> bool" where
  "sql_eq a b = (a \<noteq> JNull \<and> b \<noteq> JNull \<and> a = b)"

text \<open>
  \<^verbatim>\<open>FROM creneaux_expedition ce LEFT JOIN colis c ON ce.id = c.creneau_id\<close>: every slot
  paired with each package that references it, or once with no package.
\<close>

definition join_slot :: "row list \<Rightarrow> row \<Rightarrow> (row \<times> row option) list" where
  "join_slot cs ce =
     (let ms = filter (\<lambda>c. sql_eq (col ce ''id'') (col c ''creneau_id'')) cs
      in if ms = [] then [(ce, None)] else map (\<lambda>c. (ce, Some c)) ms)"

definition left_join :: "row list \<Rightarrow> row list \<Rightarrow> (row \<times> row option) list" where
  "left_join ces cs = concat (map (join_slot cs) ces)"

text \<open>
  \<^verbatim>\<open>GROUP BY ce.id\<close>: one group for each slot id among the joined rows, holding the
  package side of every joined row with that id.
\<close>

fun distinct_on_id :: "row list \<Rightarrow> row list" where
  "distinct_on_id [] = []"
| "distinct_on_id (r # rs) =
     r # distinct_on_id (filter (\<lambda>r'. col r' ''id'' \<noteq> col r ''id'') rs)"

definition group_by_id :: "(row \<times> row option) list \<Rightarrow> (row \<times> row option list) list" where
  "group_by_id js =
     map (\<lambda>ce. (ce, map snd (filter (\<lambda>j. col (fst j) ''id'' = col ce ''id'') js)))
       (distinct_on_id (map fst js))"

text \<open>\<^verbatim>\<open>COUNT(c.id)\<close> over a group: the joined rows whose package id is not NULL.\<close>

definition count_id :: "row option list \<Rightarrow> nat" where
  "count_id ms =
     length (filter (\<lambda>m. case m of Some c \<Rightarrow> col c ''id'' \<noteq> JNull | None \<Rightarrow> False) ms)"

definition sql_minus :: "jsval \<Rightarrow> nat \<Rightarrow> jsval" where
  "sql_minus a n = (case a of JNum q \<Rightarrow> JNum (q - of_nat n) | _ \<Rightarrow> JNull)"

text \<open>
  The aggregate of the slot manager, for the joined rows that satisfy a \<^verbatim>\<open>WHERE\<close>
  condition on the slot:
  \<^verbatim>\<open>SELECT ce.*, COUNT(c.id) as nombre_colis_actuels,
       (ce.capacite_max - COUNT(c.id)) as places_restantes ... GROUP BY ce.id\<close>.
\<close>

definition usage_select :: "(row \<Rightarrow> bool) \<Rightarrow> store \<Rightarrow> row list" where
  "usage_select wh db =
     map (\<lambda>(ce, ms).
            ce @ [(''nombre_colis_actuels'', JNum (of_nat (count_id ms))),
                  (''places_restantes'', sql_minus (col ce ''capacite_max'') (count_id ms))])
       (group_by_id (filter (\<lambda>j. wh (fst j))
          (left_join (creneaux_expedition db) (colis db))))"

text \<open>
  The aggregate of package creation:
  \<^verbatim>\<open>SELECT ce.capacite_max, COUNT(c.id) as current_usage ... WHERE ce.id = $1 GROUP BY ce.id\<close>.
\<close>

definition capacity_query :: "store \<Rightarrow> jsval \<Rightarrow> row list option" where
  "capacity_query db p =
     (case int_param p of
        None \<Rightarrow> None
      | Some k \<Rightarrow>
          Some (map (\<lambda>(ce, ms).
                  [(''capacite_max'', col ce ''capacite_max''),
                   (''current_usage'', JNum (of_nat (count_id ms)))])
            (group_by_id (filter (\<lambda>j. sql_eq (col (fst j) ''id'') k)
               (left_join (creneaux_expedition db) (colis db))))))"

text \<open>The primary key of a table: identifiers are integers and no two rows share one.\<close>

definition is_id :: "jsval \<Rightarrow> bool" where
  "is_id v = (case v of JNum q \<Rightarrow> is_int q | _ \<Rightarrow> False)"

definition pk_ok :: "row list \<Rightarrow> bool" where
  "pk_ok rows =
     (distinct (map (\<lambda>r. col r ''id'') rows) \<and> list_all (\<lambda>r. is_id (col r ''id'')) rows)"

text \<open>The packages that reference a slot id.\<close>

definition referencing :: "store \<Rightarrow> jsval \<Rightarrow> row list" where
  "referencing db k = filter (\<lambda>c. col c ''creneau_id'' = k) (colis db)"

text \<open>
  Binding a list of column values: the integer columns of the table take integer
  parameters, the others anything; \<open>None\<close> when a value does not fit its column.
\<close>

definition coerce_cols :: "string list \<Rightarrow> (string \<times> jsval) list \<Rightarrow> (string \<times> jsval) list option" where
  "coerce_cols ints sets =
     those (map (\<lambda>(c, v). if c \<in> set ints then map_option (Pair c) (int_param v)
                           else Some (c, any_param v)) sets)"

text \<open>\<^verbatim>\<open>UPDATE t SET c1 = v1, ... WHERE id = k\<close> on the rows of a table.\<close>

definition sql_update :: "(string \<times> jsval) list \<Rightarrow> jsval \<Rightarrow> row list \<Rightarrow> row list" where
  "sql_update sets k rows =
     map (\<lambda>r. if sql_eq (col r ''id'') k
               then AList.updates (map fst sets) (map snd sets) r else r) rows"

text \<open>\<^verbatim>\<open>WHERE id = k\<close>, also what \<^verbatim>\<open>RETURNING *\<close> gives after an update.\<close>

definition where_id :: "jsval \<Rightarrow> row list \<Rightarrow> row list" where
  "where_id k rows = filter (\<lambda>r. sql_eq (col r ''id'') k) rows"

text \<open>The foreign key of \<^verbatim>\<open>colis.creneau_id\<close>: NULL, or the id of a slot.\<close>

definition fk_ok :: "store \<Rightarrow> (string \<times> jsval) list \<Rightarrow> bool" where
  "fk_ok db sets =
     (case map_of sets ''creneau_id'' of
        None \<Rightarrow> True
      | Some v \<Rightarrow> v = JNull \<or> where_id v (creneaux_expedition db) \<noteq> [])"

text \<open>
  The three \<^verbatim>\<open>UPDATE ... WHERE id = $n RETURNING *\<close> statements. The path parameter
  \<open>pid\<close> (\<^verbatim>\<open>req.params.id\<close>) is bound as it is, a string. The result is the returned rows and the new store.
\<close>

definition update_colis :: "store \<Rightarrow> (string \<times> jsval) list \<Rightarrow> string \<Rightarrow> (row list \<times> store) option" where
  "update_colis db sets pid =
     (case int_param (JStr pid) of
        None \<Rightarrow> None
      | Some k \<Rightarrow>
          (case coerce_cols [''creneau_id''] sets of
             None \<Rightarrow> None
           | Some sets' \<Rightarrow>
               if where_id k (colis db) \<noteq> [] \<and> \<not> fk_ok db sets' then None
               else let rows' = sql_update sets' k (colis db)
                    in Some (where_id k rows', db\<lparr>colis := rows'\<rparr>)))"

definition update_creneaux :: "store \<Rightarrow> (string \<times> jsval) list \<Rightarrow> string \<Rightarrow> (row list \<times> store) option" where
  "update_creneaux db sets pid =
     (case int_param (JStr pid) of
        None \<Rightarrow> None
      | Some k \<Rightarrow>
          (case coerce_cols [''capacite_max''] sets of
             None \<Rightarrow> None
           | Some sets' \<Rightarrow>
               let rows' = sql_update sets' k (creneaux_expedition db)
               in Some (where_id k rows', db\<lparr>creneaux_expedition := rows'\<rparr>)))"

definition update_reservations :: "store \<Rightarrow> (string \<times> jsval) list \<Rightarrow> string \<Rightarrow> (row list \<times> store) option" where
  "update_reservations db sets pid =
     (case int_param (JStr pid) of
        None \<Rightarrow> None
      | Some k \<Rightarrow>
          (case coerce_cols [] sets of
             None \<Rightarrow> None
           | Some sets' \<Rightarrow>
               let rows' = sql_update sets' k (reservations db)
               in Some (where_id k rows', db\<lparr>reservations := rows'\<rparr>)))"

text \<open>
  \<^verbatim>\<open>INSERT INTO colis (...) VALUES (...) RETURNING *\<close>. The new identifier \<open>new_id\<close> is
  what the identifier sequence gives; the status column takes its default (the
  specification: status implicitly pending). The insert fails on a value that does
  not fit its column, on a slot reference to no slot, and on an identifier in use.
\<close>

definition insert_colis :: "store \<Rightarrow> int \<Rightarrow> (string \<times> jsval) list \<Rightarrow> (row \<times> store) option" where
  "insert_colis db new_id vals =
     (case coerce_cols [''creneau_id''] vals of
        None \<Rightarrow> None
      | Some vals' \<Rightarrow>
          if \<not> fk_ok db vals' \<or> where_id (JNum (of_int new_id)) (colis db) \<noteq> [] then None
          else let r = (''id'', JNum (of_int new_id)) # vals' @ [(''statut'', JStr ''en_attente'')]
               in Some (r, db\<lparr>colis := colis db @ [r]\<rparr>))"

section \<open>Responses\<close>

record pagination =
  page :: jsnum
  limit :: jsnum
  total_rows :: jsnum
  totalPages :: jsnum
  hasNext :: bool
  hasPrev :: bool

datatype payload =
    ErrorJson string
  | RowJson row
  | PageJson "row list" pagination
  | DeletedJson string row
  | DeletedManyJson string "row list"

datatype response = Response nat payload

fun status :: "response \<Rightarrow> nat" where
  "status (Response n p) = n"

text \<open>\<^verbatim>\<open>res.status(400).json({ error: msg })\<close>, and the same with 404.\<close>

definition bad_request :: "string \<Rightarrow> response" where
  "bad_request msg = Response 400 (ErrorJson msg)"

definition not_found :: "string \<Rightarrow> response" where
  "not_found msg = Response 404 (ErrorJson msg)"

text \<open>
  A statement that throws rejects the handler's promise; \<^verbatim>\<open>asyncHandler\<close> passes the
  error to the error middleware, which answers 500.
\<close>

definition internal_error :: response where
  "internal_error = Response 500 (ErrorJson ''Erreur interne du serveur'')"

text \<open>\<^verbatim>\<open>!id || isNaN(parseInt(id))\<close> on a path parameter.\<close>

definition id_invalid :: "string \<Rightarrow> bool" where
  "id_invalid pid = (pid = [] \<or> parseInt pid = None)"

text \<open>The first field of a list that is falsy in the body (the loop over \<^verbatim>\<open>requiredFields\<close>).\<close>

definition missing_field :: "string list \<Rightarrow> jsobject \<Rightarrow> string option" where
  "missing_field fs body = find (\<lambda>f. \<not> truthy (js_get body f)) fs"

text \<open>The answer to an \<^verbatim>\<open>UPDATE ... RETURNING *\<close>: 500, 404 on no row, or the first row.\<close>

definition update_response :: "string \<Rightarrow> store \<Rightarrow> (row list \<times> store) option \<Rightarrow> response \<times> store" where
  "update_response msg db res =
     (case res of
        None \<Rightarrow> (internal_error, db)
      | Some (rows, db') \<Rightarrow>
          (case rows of
             [] \<Rightarrow> (not_found msg, db')
           | r # rs \<Rightarrow> (Response 200 (RowJson r), db')))"

section \<open>The package manager (\<^verbatim>\<open>colisRouter\<close>)\<close>

text \<open>Error messages are written without their accents.\<close>

definition requiredFields :: "string list" where
  "requiredFields =
     [''nom_expediteur'', ''telephone_expediteur'', ''adresse_expediteur'',
      ''nom_destinataire'', ''telephone_destinataire'', ''adresse_destinataire'', ''poids'']"

definition validPackageTypes :: "string list" where
  "validPackageTypes = [''document'', ''vetements'', ''electronique'', ''nourriture'', ''autre'']"

definition validPaymentMethods :: "string list" where
  "validPaymentMethods = [''especes'', ''carte'', ''virement'', ''mobile'']"

definition validStatus :: "string list" where
  "validStatus = [''en_attente'', ''en_transit'', ''livre'']"

text \<open>
  \<^verbatim>\<open>colisRouter.post('/')\<close>, lines 43 to 67: required fields, package type, payment
  method, positive weight. \<open>None\<close>: no check answered.
\<close>

definition colis_post_checks :: "jsobject \<Rightarrow> response option" where
  "colis_post_checks body =
     (case missing_field requiredFields body of
        Some f \<Rightarrow> Some (bad_request (''Champ obligatoire manquant: '' @ f))
      | None \<Rightarrow>
          if truthy (js_get body ''type_colis'')
             \<and> \<not> js_includes validPackageTypes (js_get body ''type_colis'')
          then Some (bad_request ''Type de colis invalide'')
          else if truthy (js_get body ''methode_paiement'')
             \<and> \<not> js_includes validPaymentMethods (js_get body ''methode_paiement'')
          then Some (bad_request ''Methode de paiement invalide'')
          else if le_zero (js_get body ''poids'')
          then Some (bad_request ''Le poids doit etre superieur a 0'')
          else None)"

text \<open>
  Lines 69 to 88: the capacity of the slot, when \<^verbatim>\<open>creneau_id\<close> is truthy. The count
  comes back from the store as the decimal string of a number, which
  \<^verbatim>\<open>current_usage >= capacite_max\<close> compares as that number.
\<close>

definition capacity_check :: "store \<Rightarrow> jsval \<Rightarrow> response option" where
  "capacity_check db creneau_id =
     (if truthy creneau_id then
        (case capacity_query db creneau_id of
           None \<Rightarrow> Some internal_error
         | Some [] \<Rightarrow> Some (bad_request ''Creneau specifie introuvable'')
         | Some (r # rs) \<Rightarrow>
             if num_le (to_number (col r ''capacite_max'')) (to_number (col r ''current_usage''))
             then Some (bad_request ''Le creneau a atteint sa capacite maximale'')
             else None)
      else None)"

text \<open>
  Line 91: \<^verbatim>\<open>'COL' + Date.now() + Math.random().toString(36).substr(2, 9).toUpperCase()\<close>.
  \<open>now\<close> is the clock's milliseconds and \<open>rnd\<close> the string
  \<^verbatim>\<open>Math.random().toString(36)\<close>, both inputs of the handler.
\<close>

definition numero_suivi :: "nat \<Rightarrow> string \<Rightarrow> string" where
  "numero_suivi now rnd = ''COL'' @ show_nat now @ toUpperCase (take 9 (drop 2 rnd))"

definition colis_post :: "store \<Rightarrow> int \<Rightarrow> nat \<Rightarrow> string \<Rightarrow> jsobject \<Rightarrow> response \<times> store" where
  "colis_post db new_id now rnd body =
     (case colis_post_checks body of
        Some r \<Rightarrow> (r, db)
      | None \<Rightarrow>
          (case capacity_check db (js_get body ''creneau_id'') of
             Some r \<Rightarrow> (r, db)
           | None \<Rightarrow>
               (case insert_colis db new_id
                  [(''creneau_id'', js_get body ''creneau_id''),
                   (''numero_suivi'', JStr (numero_suivi now rnd)),
                   (''nom_expediteur'', js_get body ''nom_expediteur''),
                   (''telephone_expediteur'', js_get body ''telephone_expediteur''),
                   (''adresse_expediteur'', js_get body ''adresse_expediteur''),
                   (''nom_destinataire'', js_get body ''nom_destinataire''),
                   (''telephone_destinataire'', js_get body ''telephone_destinataire''),
                   (''adresse_destinataire'', js_get body ''adresse_destinataire''),
                   (''type_colis'', js_or (js_get body ''type_colis'') (JStr ''document'')),
                   (''poids'', js_get body ''poids''),
                   (''description'', js_get body ''description''),
                   (''valeur_declaree'', js_or (js_get body ''valeur_declaree'') (JNum 0)),
                   (''assurance'', js_or (js_get body ''assurance'') (JBool False)),
                   (''methode_paiement'', js_or (js_get body ''methode_paiement'') (JStr ''especes''))]
                of
                  None \<Rightarrow> (internal_error, db)
                | Some (r, db') \<Rightarrow> (Response 201 (RowJson r), db'))))"

text \<open>\<^verbatim>\<open>colisRouter.put('/:id')\<close>, lines 227 to 255.\<close>

definition colis_put_checks :: "jsobject \<Rightarrow> response option" where
  "colis_put_checks updates =
     (case missing_field requiredFields updates of
        Some f \<Rightarrow> Some (bad_request (''Champ obligatoire manquant: '' @ f))
      | None \<Rightarrow>
          if truthy (js_get updates ''type_colis'')
             \<and> \<not> js_includes validPackageTypes (js_get updates ''type_colis'')
          then Some (bad_request ''Type de colis invalide'')
          else if truthy (js_get updates ''methode_paiement'')
             \<and> \<not> js_includes validPaymentMethods (js_get updates ''methode_paiement'')
          then Some (bad_request ''Methode de paiement invalide'')
          else if le_zero (js_get updates ''poids'')
          then Some (bad_request ''Le poids doit etre superieur a 0'')
          else if truthy (js_get updates ''statut'')
             \<and> \<not> js_includes validStatus (js_get updates ''statut'')
          then Some (bad_request ''Statut invalide'')
          else None)"

definition colis_put :: "store \<Rightarrow> string \<Rightarrow> jsobject \<Rightarrow> response \<times> store" where
  "colis_put db pid updates =
     (if id_invalid pid then (bad_request ''ID invalide'', db)
      else (case colis_put_checks updates of
              Some r \<Rightarrow> (r, db)
            | None \<Rightarrow>
                update_response ''Colis non trouve'' db
                  (update_colis db
                     [(''creneau_id'', js_get updates ''creneau_id''),
                      (''nom_expediteur'', js_get updates ''nom_expediteur''),
                      (''telephone_expediteur'', js_get updates ''telephone_expediteur''),
                      (''adresse_expediteur'', js_get updates ''adresse_expediteur''),
                      (''nom_destinataire'', js_get updates ''nom_destinataire''),
                      (''telephone_destinataire'', js_get updates ''telephone_destinataire''),
                      (''adresse_destinataire'', js_get updates ''adresse_destinataire''),
                      (''type_colis'', js_get updates ''type_colis''),
                      (''poids'', js_get updates ''poids''),
                      (''description'', js_get updates ''description''),
                      (''valeur_declaree'', js_get updates ''valeur_declaree''),
                      (''assurance'', js_get updates ''assurance''),
                      (''methode_paiement'', js_get updates ''methode_paiement''),
                      (''statut'', js_or (js_get updates ''statut'') (JStr ''en_attente''))]
                     pid)))"

text \<open>\<^verbatim>\<open>colisRouter.patch('/:id')\<close>.\<close>

definition allowedFields_colis :: "string list" where
  "allowedFields_colis =
     [''creneau_id'', ''nom_expediteur'', ''telephone_expediteur'', ''adresse_expediteur'',
      ''nom_destinataire'', ''telephone_destinataire'', ''adresse_destinataire'',
      ''type_colis'', ''poids'', ''description'', ''valeur_declaree'',
      ''assurance'', ''methode_paiement'', ''statut'']"

text \<open>\<^verbatim>\<open>Object.keys(updates).filter(f => allowedFields.includes(f))\<close>.\<close>

definition fieldsToUpdate :: "string list \<Rightarrow> jsobject \<Rightarrow> string list" where
  "fieldsToUpdate allowed updates = filter (\<lambda>f. f \<in> set allowed) (keys updates)"

text \<open>Lines 304 to 331: each check guarded by the truthiness of the field.\<close>

definition colis_patch_checks :: "jsobject \<Rightarrow> response option" where
  "colis_patch_checks updates =
     (if truthy (js_get updates ''type_colis'')
         \<and> \<not> js_includes validPackageTypes (js_get updates ''type_colis'')
      then Some (bad_request ''Type de colis invalide'')
      else if truthy (js_get updates ''methode_paiement'')
         \<and> \<not> js_includes validPaymentMethods (js_get updates ''methode_paiement'')
      then Some (bad_request ''Methode de paiement invalide'')
      else if truthy (js_get updates ''poids'') \<and> le_zero (js_get updates ''poids'')
      then Some (bad_request ''Le poids doit etre superieur a 0'')
      else if truthy (js_get updates ''statut'')
         \<and> \<not> js_includes validStatus (js_get updates ''statut'')
      then Some (bad_request ''Statut invalide'')
      else None)"

definition colis_patch :: "store \<Rightarrow> string \<Rightarrow> jsobject \<Rightarrow> response \<times> store" where
  "colis_patch db pid updates =
     (if id_invalid pid then (bad_request ''ID invalide'', db)
      else if keys updates = [] then (bad_request ''Aucun champ a modifier'', db)
      else if fieldsToUpdate allowedFields_colis updates = []
      then (bad_request ''Aucun champ valide a modifier'', db)
      else (case colis_patch_checks updates of
              Some r \<Rightarrow> (r, db)
            | None \<Rightarrow>
                update_response ''Colis non trouve'' db
                  (update_colis db
                     (map (\<lambda>f. (f, js_get updates f)) (fieldsToUpdate allowedFields_colis updates))
                     pid)))"

section \<open>Paginated lists\<close>

text \<open>
  The query string: parameter names to their string values. Two things the list
  statements leave to the store are parameters of the handlers: \<open>ilike v pat\<close>, whether
  a column value matches a pattern case-insensitively, and \<open>le\<close>, the order of column
  values that \<^verbatim>\<open>ORDER BY\<close> sorts by.
\<close>

type_synonym query = "(string \<times> string) list"

text \<open>\<^verbatim>\<open>parseInt(page)\<close> after \<^verbatim>\<open>const { page = 1 } = req.query\<close>.\<close>

definition query_number :: "query \<Rightarrow> string \<Rightarrow> int \<Rightarrow> jsnum" where
  "query_number q name dflt =
     (case map_of q name of None \<Rightarrow> NumFin (of_int dflt) | Some s \<Rightarrow> parseInt_number s)"

definition query_str :: "query \<Rightarrow> string \<Rightarrow> string \<Rightarrow> string" where
  "query_str q name dflt = (case map_of q name of None \<Rightarrow> dflt | Some s \<Rightarrow> s)"

text \<open>
  \<^verbatim>\<open>Math.max(1, parseInt(page))\<close>, \<^verbatim>\<open>Math.min(100, Math.max(1, parseInt(limit)))\<close> and
  \<^verbatim>\<open>(pageNum - 1) * limitNum\<close>.
\<close>

definition pageNum :: "query \<Rightarrow> jsnum" where
  "pageNum q = Math_max (NumFin 1) (query_number q ''page'' 1)"

definition limitNum :: "query \<Rightarrow> jsnum" where
  "limitNum q = Math_min (NumFin 100) (Math_max (NumFin 1) (query_number q ''limit'' 10))"

definition offset :: "query \<Rightarrow> jsnum" where
  "offset q = num_mul (num_sub (pageNum q) (NumFin 1)) (limitNum q)"

text \<open>
  \<^verbatim>\<open>allowedSortColumns.includes(sortBy) ? sortBy : 'id'\<close> and
  \<^verbatim>\<open>order.toUpperCase() === 'ASC' ? 'ASC' : 'DESC'\<close> (true: descending).
\<close>

definition sortColumn :: "string list \<Rightarrow> query \<Rightarrow> string" where
  "sortColumn allowedSortColumns q =
     (let sortBy = query_str q ''sortBy'' ''id''
      in if sortBy \<in> set allowedSortColumns then sortBy else ''id'')"

definition sortOrder :: "query \<Rightarrow> bool" where
  "sortOrder q = (toUpperCase (query_str q ''order'' ''DESC'') \<noteq> ''ASC'')"

fun insert_by :: "('a \<Rightarrow> 'a \<Rightarrow> bool) \<Rightarrow> 'a \<Rightarrow> 'a list \<Rightarrow> 'a list" where
  "insert_by le x [] = [x]"
| "insert_by le x (y # ys) = (if le x y then x # y # ys else y # insert_by le x ys)"

text \<open>\<^verbatim>\<open>ORDER BY c ASC\<close> or \<^verbatim>\<open>DESC\<close>.\<close>

definition order_by :: "(jsval \<Rightarrow> jsval \<Rightarrow> bool) \<Rightarrow> string \<Rightarrow> bool \<Rightarrow> row list \<Rightarrow> row list" where
  "order_by le c desc rows =
     foldr (insert_by (\<lambda>a b. if desc then le (col b c) (col a c) else le (col a c) (col b c)))
       rows []"

text \<open>
  The text that the driver sends for a number is that of \<^verbatim>\<open>Number.prototype.toString\<close>:
  for an integer below \<open>10 ^ 21\<close>, the decimal with the fewest significant digits that
  reads back as the same double (the nearest to it when there are several, the even one
  of two equally near). \<open>shortest_decimal j x\<close> is that decimal for a non-negative integer
  \<open>x\<close>, looked for among the multiples of \<open>10 ^ j\<close>, then of \<open>10 ^ (j - 1)\<close>, and so on.
\<close>

fun shortest_decimal :: "nat \<Rightarrow> rat \<Rightarrow> int" where
  "shortest_decimal 0 x = \<lfloor>x\<rfloor>"
| "shortest_decimal (Suc j) x =
     (let u = 10 ^ Suc j;
          lo = \<lfloor>x\<rfloor> div u * u;
          hi = lo + u;
          a = (to_double (of_int lo) = NumFin x);
          b = (to_double (of_int hi) = NumFin x)
      in if a \<and> b
         then (if x - of_int lo < of_int hi - x then lo
               else if of_int hi - x < x - of_int lo then hi
               else if even (lo div u) then lo else hi)
         else if a then lo
         else if b then hi
         else shortest_decimal j x)"

text \<open>
  A number bound to \<^verbatim>\<open>LIMIT\<close> or \<^verbatim>\<open>OFFSET\<close>, which the store reads as a 64-bit integer
  from the driver's text (\<open>None\<close>: the statement fails). The text of NaN, of an infinity,
  of a fraction and of a number from \<open>10 ^ 21\<close> on (which has an exponent) is no integer.
\<close>

definition pg_int8 :: "jsnum \<Rightarrow> int option" where
  "pg_int8 v =
     (case v of
        NumFin x \<Rightarrow>
          if is_int x \<and> \<bar>x\<bar> < 10 ^ 21
          then let n = (if x < 0 then - shortest_decimal 20 (- x) else shortest_decimal 20 x)
               in if - (2 ^ 63) \<le> n \<and> n < 2 ^ 63 then Some n else None
          else None
      | _ \<Rightarrow> None)"

text \<open>\<^verbatim>\<open>LIMIT l OFFSET o\<close>; the store refuses a negative one.\<close>

definition limit_offset :: "int \<Rightarrow> int \<Rightarrow> row list \<Rightarrow> row list option" where
  "limit_offset l off rows =
     (if l < 0 \<or> off < 0 then None else Some (take (nat l) (drop (nat off) rows)))"

text \<open>
  The body of a list response, lines 168 to 181 of \<^verbatim>\<open>colis.js\<close> and the same lines of the
  other two routers; \<open>n\<close> is the count that the store returns, which \<^verbatim>\<open>parseInt\<close> reads.
\<close>

definition page_response :: "query \<Rightarrow> row list \<Rightarrow> nat \<Rightarrow> response" where
  "page_response q rows n =
     (let total = to_double (of_nat n);
          pages = Math_ceil (num_div total (limitNum q))
      in Response 200 (PageJson rows
           \<lparr>page = pageNum q, limit = limitNum q, total_rows = total, totalPages = pages,
            hasNext = num_less (pageNum q) pages, hasPrev = num_less (NumFin 1) (pageNum q)\<rparr>))"

text \<open>
  What the three list handlers share: page and limit, sort column and direction, the
  page of the sorted matching rows, the count of the matching rows. The statement fails
  when the store cannot read the limit or the offset.
\<close>

definition list_response ::
  "(jsval \<Rightarrow> jsval \<Rightarrow> bool) \<Rightarrow> string list \<Rightarrow> query \<Rightarrow> row list \<Rightarrow> nat \<Rightarrow> response" where
  "list_response le allowedSortColumns q rows n =
     (case pg_int8 (limitNum q) of
        None \<Rightarrow> internal_error
      | Some l \<Rightarrow>
          (case pg_int8 (offset q) of
             None \<Rightarrow> internal_error
           | Some off \<Rightarrow>
               (case limit_offset l off
                       (order_by le (sortColumn allowedSortColumns q) (sortOrder q) rows) of
                  None \<Rightarrow> internal_error
                | Some page_rows \<Rightarrow> page_response q page_rows n)))"

text \<open>\<^verbatim>\<open>if (search)\<close> and the pattern \<^verbatim>\<open>`%${search}%`\<close>.\<close>

definition search_of :: "query \<Rightarrow> string option" where
  "search_of q = (case map_of q ''search'' of None \<Rightarrow> None | Some s \<Rightarrow> if s = [] then None else Some (''%'' @ s @ ''%''))"



definition allowedSortColumns_creneaux :: "string list" where
  "allowedSortColumns_creneaux =
     [''id'', ''lieu_depart'', ''destination'', ''date_expedition'', ''heure_depart'',
      ''date_creation'']"







section \<open>The slot manager (\<^verbatim>\<open>creneauxRouter\<close>)\<close>

text \<open>
  \<^verbatim>\<open>creneauxRouter.get('/')\<close>. With a search the count statement is
  \<^verbatim>\<open>SELECT COUNT(*) FROM creneaux_expedition WHERE ce.lieu_depart ILIKE $1 OR ...\<close>: it
  names a table alias \<^verbatim>\<open>ce\<close> that its \<^verbatim>\<open>FROM\<close> clause does not declare, so the statement
  fails and the request is answered 500.
\<close>

definition creneaux_list :: "(jsval \<Rightarrow> jsval \<Rightarrow> bool) \<Rightarrow> store \<Rightarrow> query \<Rightarrow> response" where
  "creneaux_list le db q =
     (case search_of q of
        Some pat \<Rightarrow> internal_error
      | None \<Rightarrow>
          list_response le allowedSortColumns_creneaux q (usage_select (\<lambda>ce. True) db)
            (length (creneaux_expedition db)))"

text \<open>\<^verbatim>\<open>creneauxRouter.get('/:id')\<close>.\<close>

definition creneaux_get :: "store \<Rightarrow> string \<Rightarrow> response" where
  "creneaux_get db pid =
     (if id_invalid pid then bad_request ''ID invalide''
      else (case int_param (JStr pid) of
              None \<Rightarrow> internal_error
            | Some k \<Rightarrow>
                (case usage_select (\<lambda>ce. sql_eq (col ce ''id'') k) db of
                   [] \<Rightarrow> not_found ''Creneau non trouve''
                 | r # rs \<Rightarrow> Response 200 (RowJson r))))"

text \<open>\<^verbatim>\<open>creneauxRouter.patch('/:id')\<close>.\<close>

definition allowedFields_creneaux :: "string list" where
  "allowedFields_creneaux =
     [''heure_depart'', ''lieu_depart'', ''destination'', ''capacite_max'',
      ''frais_par_kg'', ''poids_max_colis'', ''type_transport'', ''date_expedition'']"

definition validTransportTypes :: "string list" where
  "validTransportTypes = [''standard'', ''express'', ''prioritaire'']"

definition creneaux_patch_checks :: "jsobject \<Rightarrow> response option" where
  "creneaux_patch_checks updates =
     (if truthy (js_get updates ''type_transport'')
         \<and> \<not> js_includes validTransportTypes (js_get updates ''type_transport'')
      then Some (bad_request
        ''Type de transport invalide. Doit etre: standard, express ou prioritaire'')
      else if (truthy (js_get updates ''capacite_max'') \<and> le_zero (js_get updates ''capacite_max''))
           \<or> (truthy (js_get updates ''frais_par_kg'') \<and> le_zero (js_get updates ''frais_par_kg''))
           \<or> (truthy (js_get updates ''poids_max_colis'')
                \<and> le_zero (js_get updates ''poids_max_colis''))
      then Some (bad_request
        ''La capacite, les frais et le poids maximum doivent etre superieurs a 0'')
      else None)"

definition creneaux_patch :: "store \<Rightarrow> string \<Rightarrow> jsobject \<Rightarrow> response \<times> store" where
  "creneaux_patch db pid updates =
     (if id_invalid pid then (bad_request ''ID invalide'', db)
      else if keys updates = [] then (bad_request ''Aucun champ a modifier'', db)
      else if fieldsToUpdate allowedFields_creneaux updates = []
      then (bad_request ''Aucun champ valide a modifier'', db)
      else (case creneaux_patch_checks updates of
              Some r \<Rightarrow> (r, db)
            | None \<Rightarrow>
                update_response ''Creneau non trouve'' db
                  (update_creneaux db
                     (map (\<lambda>f. (f, js_get updates f))
                        (fieldsToUpdate allowedFields_creneaux updates))
                     pid)))"

text \<open>
  \<^verbatim>\<open>creneauxRouter.delete('/:id')\<close>: \<^verbatim>\<open>SELECT COUNT(*) FROM colis WHERE creneau_id = $1\<close>,
  then \<^verbatim>\<open>DELETE FROM creneaux_expedition WHERE id = $1 RETURNING *\<close>.
\<close>

definition creneaux_delete :: "store \<Rightarrow> string \<Rightarrow> response \<times> store" where
  "creneaux_delete db pid =
     (if id_invalid pid then (bad_request ''ID invalide'', db)
      else (case int_param (JStr pid) of
              None \<Rightarrow> (internal_error, db)
            | Some k \<Rightarrow>
                if length (filter (\<lambda>c. sql_eq (col c ''creneau_id'') k) (colis db)) > 0
                then (bad_request ''Impossible de supprimer le creneau: des colis y sont associes'', db)
                else (case where_id k (creneaux_expedition db) of
                        [] \<Rightarrow> (not_found ''Creneau non trouve'', db)
                      | r # rs \<Rightarrow>
                          (Response 200 (DeletedJson ''Creneau supprime'' r),
                           db\<lparr>creneaux_expedition :=
                                filter (\<lambda>r. \<not> sql_eq (col r ''id'') k) (creneaux_expedition db)\<rparr>))))"

section \<open>The reservation manager (\<^verbatim>\<open>reservationsRouter\<close>)\<close>

text \<open>\<^verbatim>\<open>reservationsRouter.patch('/:id')\<close>.\<close>

definition allowedFields_reservations :: "string list" where
  "allowedFields_reservations =
     [''destination'', ''nom'', ''prenom'', ''email'', ''telephone'',
      ''lieu_depart'', ''date_depart'', ''date_retour'',
      ''nombre_passagers'', ''classe'']"

definition validClasses :: "string list" where
  "validClasses = [''Economique'', ''Affaires'', ''Premiere'']"

definition reservations_patch_checks :: "jsobject \<Rightarrow> response option" where
  "reservations_patch_checks updates =
     (if truthy (js_get updates ''classe'')
         \<and> \<not> js_includes validClasses (js_get updates ''classe'')
      then Some (bad_request ''Classe invalide. Doit etre: Economique, Affaires ou Premiere'')
      else if truthy (js_get updates ''nombre_passagers'')
         \<and> le_zero (js_get updates ''nombre_passagers'')
      then Some (bad_request ''Le nombre de passagers doit etre superieur a 0'')
      else None)"

definition reservations_patch :: "store \<Rightarrow> string \<Rightarrow> jsobject \<Rightarrow> response \<times> store" where
  "reservations_patch db pid updates =
     (if id_invalid pid then (bad_request ''ID invalide'', db)
      else if keys updates = [] then (bad_request ''Aucun champ a modifier'', db)
      else if fieldsToUpdate allowedFields_reservations updates = []
      then (bad_request ''Aucun champ valide a modifier'', db)
      else (case reservations_patch_checks updates of
              Some r \<Rightarrow> (r, db)
            | None \<Rightarrow>
                update_response ''Reservation non trouvee'' db
                  (update_reservations db
                     (map (\<lambda>f. (f, js_get updates f))
                        (fieldsToUpdate allowedFields_reservations updates))
                     pid)))"

text \<open>
  \<^verbatim>\<open>reservationsRouter.delete('/')\<close>: \<^verbatim>\<open>ids.filter(id => !isNaN(parseInt(id)))\<close>, then
  \<^verbatim>\<open>DELETE FROM reservations WHERE id IN ($1, ..., $n) RETURNING *\<close> with the kept
  entries as parameters.
\<close>

definition validIds :: "jsval list \<Rightarrow> jsval list" where
  "validIds ids = filter (\<lambda>v. \<not> isNaN_parseInt v) ids"

definition delete_in :: "store \<Rightarrow> jsval list \<Rightarrow> (row list \<times> store) option" where
  "delete_in db ps =
     (case those (map int_param ps) of
        None \<Rightarrow> None
      | Some ks \<Rightarrow>
          Some (filter (\<lambda>r. list_ex (sql_eq (col r ''id'')) ks) (reservations db),
                db\<lparr>reservations :=
                     filter (\<lambda>r. \<not> list_ex (sql_eq (col r ''id'')) ks) (reservations db)\<rparr>))"

definition reservations_delete_many :: "store \<Rightarrow> jsobject \<Rightarrow> response \<times> store" where
  "reservations_delete_many db body =
     (case js_get body ''ids'' of
        JArr ids \<Rightarrow>
          if ids = [] then (bad_request ''Liste d IDs requise'', db)
          else if validIds ids = [] then (bad_request ''Aucun ID valide fourni'', db)
          else (case delete_in db (validIds ids) of
                  None \<Rightarrow> (internal_error, db)
                | Some (rows, db') \<Rightarrow>
                    (Response 200
                       (DeletedManyJson
                          (show_nat (length rows) @ '' reservation(s) supprimee(s)'') rows),
                     db'))
      | other \<Rightarrow> (bad_request ''Liste d IDs requise'', db))"

section \<open>Well-formed stores\<close>

text \<open>
  What the schema guarantees of the rows the theorems below read: the primary keys of slots and
  packages, and a maximum capacity that is an integer or NULL.
\<close>

definition int_col :: "jsval \<Rightarrow> bool" where
  "int_col v = (v = JNull \<or> is_id v)"

definition wf_store :: "store \<Rightarrow> bool" where
  "wf_store db =
     (pk_ok (creneaux_expedition db) \<and> pk_ok (colis db)
      \<and> list_all (\<lambda>ce. int_col (col ce ''capacite_max'')) (creneaux_expedition db))"

section \<open>Example data\<close>

text \<open>Rows and requests on which the theorems below are run.\<close>

definition slot_row :: "int \<Rightarrow> int \<Rightarrow> row" where
  "slot_row i cap =
     [(''id'', JNum (of_int i)), (''heure_depart'', JStr ''08:00''),
      (''lieu_depart'', JStr ''Dakar''), (''destination'', JStr ''Paris''),
      (''capacite_max'', JNum (of_int cap)), (''frais_par_kg'', JNum 5),
      (''poids_max_colis'', JNum 30), (''type_transport'', JStr ''standard''),
      (''date_expedition'', JStr ''2025-01-15'')]"

definition package_row :: "int \<Rightarrow> jsval \<Rightarrow> string \<Rightarrow> row" where
  "package_row i slot st =
     [(''id'', JNum (of_int i)), (''creneau_id'', slot), (''numero_suivi'', JStr ''COL1A''),
      (''nom_expediteur'', JStr ''Awa''), (''telephone_expediteur'', JStr ''770000001''),
      (''adresse_expediteur'', JStr ''Dakar''), (''nom_destinataire'', JStr ''Binta''),
      (''telephone_destinataire'', JStr ''770000002''), (''adresse_destinataire'', JStr ''Thies''),
      (''type_colis'', JStr ''document''), (''poids'', JNum 2), (''description'', JNull),
      (''valeur_declaree'', JNum 0), (''assurance'', JBool False),
      (''methode_paiement'', JStr ''especes''), (''statut'', JStr st)]"

definition reservation_row :: "int \<Rightarrow> row" where
  "reservation_row i =
     [(''id'', JNum (of_int i)), (''destination'', JStr ''Paris''), (''nom'', JStr ''Diop''),
      (''prenom'', JStr ''Awa''), (''email'', JStr ''awa@example.org''),
      (''telephone'', JStr ''770000001''), (''lieu_depart'', JStr ''Dakar''),
      (''date_depart'', JStr ''2025-01-15''), (''date_retour'', JNull),
      (''nombre_passagers'', JNum 2), (''classe'', JStr ''Economique'')]"

text \<open>The body of a package request with every required field, for a slot reference.\<close>

definition package_body :: "jsval \<Rightarrow> jsobject" where
  "package_body slot =
     [(''creneau_id'', slot), (''nom_expediteur'', JStr ''Awa''),
      (''telephone_expediteur'', JStr ''770000001''), (''adresse_expediteur'', JStr ''Dakar''),
      (''nom_destinataire'', JStr ''Binta''), (''telephone_destinataire'', JStr ''770000002''),
      (''adresse_destinataire'', JStr ''Thies''), (''poids'', JNum 2)]"

text \<open>A store with one slot of the given id and capacity, and the given packages.\<close>

definition one_slot_store :: "int \<Rightarrow> int \<Rightarrow> row list \<Rightarrow> store" where
  "one_slot_store i cap cs =
     \<lparr>reservations = [reservation_row 1, reservation_row 2],
      creneaux_expedition = [slot_row i cap], colis = cs\<rparr>"

definition no_slot_store :: store where
  "no_slot_store = \<lparr>reservations = [], creneaux_expedition = [], colis = []\<rparr>"

section \<open>The derived fields of a slot, as the specification words them\<close>

text \<open>
  From the specification (sections 3 and 8): a slot is returned with its current package
  count, the number of package rows whose slot reference equals the slot's id, and its
  remaining capacity, the maximum capacity minus that number. This definition follows
  the specification's words; \<open>usage_select\<close> above follows the statement of the source.
\<close>

definition spec_usage_row :: "store \<Rightarrow> row \<Rightarrow> row" where
  "spec_usage_row db ce =
     (let n = length (filter (\<lambda>c. col c ''creneau_id'' = col ce ''id'') (colis db))
      in ce @ [(''nombre_colis_actuels'', JNum (of_nat n)),
               (''places_restantes'',
                 (case col ce ''capacite_max'' of JNum cap \<Rightarrow> JNum (cap - of_nat n)
                  | other \<Rightarrow> JNull))])"

section \<open>The values an update writes\<close>

text \<open>
  What a column \<open>f\<close> receives when the parameter \<open>g f\<close> is bound to it, in a table whose
  integer columns are \<open>ints\<close>.
\<close>

definition bound :: "string list \<Rightarrow> (string \<Rightarrow> jsval) \<Rightarrow> string \<Rightarrow> jsval" where
  "bound ints g f =
     (if f \<in> set ints then (case int_param (g f) of Some v \<Rightarrow> v | None \<Rightarrow> JNull)
      else any_param (g f))"

text \<open>
  The parameter that the full update of a package binds to column \<open>f\<close>: the field of the
  body, and for the status \<^verbatim>\<open>updates.statut || 'en_attente'\<close>.
\<close>

definition put_value :: "jsobject \<Rightarrow> string \<Rightarrow> jsval" where
  "put_value updates f =
     (if f = ''statut'' then js_or (js_get updates ''statut'') (JStr ''en_attente'')
      else js_get updates f)"

section \<open>Properties of the store\<close>

lemma is_int_iff: "is_int q \<longleftrightarrow> q \<in> \<int>"
  by (auto simp: is_int_def elim: Ints_cases)

lemma is_int_of_int [simp]: "is_int (of_int n)"
  by (simp add: is_int_def)

lemma join_slot_fst: "j \<in> set (join_slot cs ce) \<Longrightarrow> fst j = ce"
  by (auto simp: join_slot_def Let_def split: if_splits)

lemma join_slot_nonempty: "join_slot cs ce \<noteq> []"
  by (simp add: join_slot_def Let_def)

lemma filter_join_slot:
  "filter (\<lambda>j. P (fst j)) (join_slot cs ce) = (if P ce then join_slot cs ce else [])"
proof -
  have "filter (\<lambda>j. P (fst j)) (join_slot cs ce) = filter (\<lambda>j. P ce) (join_slot cs ce)"
    by (rule filter_cong) (auto dest: join_slot_fst)
  then show ?thesis by simp
qed

lemma filter_concat_join_slot:
  "filter (\<lambda>j. P (fst j)) (concat (map (join_slot cs) ces))
     = concat (map (join_slot cs) (filter P ces))"
  by (induction ces) (simp_all add: filter_join_slot)

lemma map_fst_join_slot: "map fst (join_slot cs ce) = replicate (length (join_slot cs ce)) ce"
proof -
  have "replicate (length (map fst (join_slot cs ce))) ce = map fst (join_slot cs ce)"
    by (rule replicate_length_same) (auto dest: join_slot_fst)
  then show ?thesis by simp
qed

lemma distinct_on_id_replicate:
  "distinct_on_id (replicate n r @ rs) =
     (if n = 0 then distinct_on_id rs
      else r # distinct_on_id (filter (\<lambda>r'. col r' ''id'' \<noteq> col r ''id'') rs))"
proof (induction n)
  case 0 show ?case by simp
next
  case (Suc n)
  show ?case by (cases n) (simp_all add: Suc)
qed

lemma filter_other_ids:
  "col ce ''id'' \<notin> (\<lambda>r. col r ''id'') ` set L \<Longrightarrow>
   filter (\<lambda>r'. col r' ''id'' \<noteq> col ce ''id'') (map fst (concat (map (join_slot cs) L)))
     = map fst (concat (map (join_slot cs) L))"
  by (induction L) (auto simp: map_fst_join_slot)

lemma distinct_on_id_join:
  "distinct (map (\<lambda>r. col r ''id'') L) \<Longrightarrow>
   distinct_on_id (map fst (concat (map (join_slot cs) L))) = L"
proof (induction L)
  case Nil show ?case by simp
next
  case (Cons ce L)
  then show ?case
    by (simp add: map_fst_join_slot distinct_on_id_replicate join_slot_nonempty filter_other_ids
        del: replicate_eq_replicate)
qed

lemma no_group_of_absent:
  "col ce ''id'' \<notin> (\<lambda>r. col r ''id'') ` set L \<Longrightarrow>
   filter (\<lambda>j. col (fst j) ''id'' = col ce ''id'') (concat (map (join_slot cs) L)) = []"
  by (induction L) (auto simp: filter_join_slot [of "\<lambda>r. col r ''id'' = col ce ''id''"])

lemma group_of_slot:
  "distinct (map (\<lambda>r. col r ''id'') L) \<Longrightarrow> ce \<in> set L \<Longrightarrow>
   filter (\<lambda>j. col (fst j) ''id'' = col ce ''id'') (concat (map (join_slot cs) L))
     = join_slot cs ce"
proof (induction L)
  case Nil then show ?case by simp
next
  case (Cons a L)
  note fj = filter_join_slot [of "\<lambda>r. col r ''id'' = col ce ''id''"]
  show ?case
  proof (cases "a = ce")
    case True
    with Cons.prems have "col ce ''id'' \<notin> (\<lambda>r. col r ''id'') ` set L" by auto
    with True show ?thesis by (simp add: fj no_group_of_absent)
  next
    case False
    with Cons.prems have "ce \<in> set L" "col a ''id'' \<noteq> col ce ''id''"
      "distinct (map (\<lambda>r. col r ''id'') L)"
      by auto
    with Cons.IH show ?thesis by (simp add: fj)
  qed
qed

text \<open>
  With slot ids distinct, grouping the joined rows by slot id gives one group for each
  slot that satisfies the condition, in the order of the table.
\<close>

lemma group_by_left_join:
  assumes "distinct (map (\<lambda>r. col r ''id'') ces)"
  shows "group_by_id (filter (\<lambda>j. wh (fst j)) (left_join ces cs))
           = map (\<lambda>ce. (ce, map snd (join_slot cs ce))) (filter wh ces)"
proof -
  let ?L = "filter wh ces"
  have d: "distinct (map (\<lambda>r. col r ''id'') ?L)"
    using assms by (simp add: distinct_map_filter)
  have "group_by_id (filter (\<lambda>j. wh (fst j)) (left_join ces cs))
          = map (\<lambda>ce. (ce, map snd (filter (\<lambda>j. col (fst j) ''id'' = col ce ''id'')
                  (concat (map (join_slot cs) ?L))))) ?L"
    by (simp add: group_by_id_def left_join_def filter_concat_join_slot distinct_on_id_join [OF d])
  also have "\<dots> = map (\<lambda>ce. (ce, map snd (join_slot cs ce))) ?L"
    by (rule map_cong) (simp_all add: group_of_slot [OF d])
  finally show ?thesis .
qed

text \<open>The count of a slot's group is the number of packages that reference the slot.\<close>

lemma count_id_join_slot:
  assumes "list_all (\<lambda>c. is_id (col c ''id'')) cs" and "is_id (col ce ''id'')"
  shows "count_id (map snd (join_slot cs ce))
           = length (filter (\<lambda>c. col c ''creneau_id'' = col ce ''id'') cs)"
proof -
  let ?ms = "filter (\<lambda>c. sql_eq (col ce ''id'') (col c ''creneau_id'')) cs"
  have nn: "col ce ''id'' \<noteq> JNull" using assms(2) by (auto simp: is_id_def)
  have eq: "?ms = filter (\<lambda>c. col c ''creneau_id'' = col ce ''id'') cs"
    using nn by (intro filter_cong) (auto simp: sql_eq_def)
  have all: "\<forall>m\<in>set (map Some ?ms). case m of Some c \<Rightarrow> col c ''id'' \<noteq> JNull | None \<Rightarrow> False"
    using assms(1) by (auto simp: list_all_iff is_id_def)
  have "count_id (map snd (join_slot cs ce)) = length ?ms"
  proof (cases "?ms = []")
    case True
    then show ?thesis by (simp add: join_slot_def count_id_def)
  next
    case False
    then have "map snd (join_slot cs ce) = map Some ?ms"
      by (simp add: join_slot_def Let_def comp_def)
    moreover have "filter (\<lambda>m. case m of Some c \<Rightarrow> col c ''id'' \<noteq> JNull | None \<Rightarrow> False)
                     (map Some ?ms) = map Some ?ms"
      using all by (rule filter_True)
    ultimately show ?thesis by (simp add: count_id_def)
  qed
  with eq show ?thesis by simp
qed

lemma usage_select_eq:
  assumes "pk_ok (creneaux_expedition db)" and "pk_ok (colis db)"
  shows "usage_select wh db =
           map (\<lambda>ce. ce @ [(''nombre_colis_actuels'',
                              JNum (of_nat (length (referencing db (col ce ''id''))))),
                            (''places_restantes'',
                              sql_minus (col ce ''capacite_max'')
                                (length (referencing db (col ce ''id''))))])
             (filter wh (creneaux_expedition db))"
proof -
  have d: "distinct (map (\<lambda>r. col r ''id'') (creneaux_expedition db))"
    and i: "\<And>ce. ce \<in> set (creneaux_expedition db) \<Longrightarrow> is_id (col ce ''id'')"
    and c: "list_all (\<lambda>c. is_id (col c ''id'')) (colis db)"
    using assms by (auto simp: pk_ok_def list_all_iff)
  show ?thesis
    unfolding usage_select_def group_by_left_join [OF d] map_map
    by (rule map_cong) (simp_all add: count_id_join_slot [OF c] i referencing_def)
qed

lemma capacity_query_eq:
  assumes "pk_ok (creneaux_expedition db)" and "pk_ok (colis db)"
    and "int_param p = Some k"
  shows "capacity_query db p =
           Some (map (\<lambda>ce. [(''capacite_max'', col ce ''capacite_max''),
                             (''current_usage'', JNum (of_nat (length (referencing db k))))])
                  (where_id k (creneaux_expedition db)))"
proof -
  have d: "distinct (map (\<lambda>r. col r ''id'') (creneaux_expedition db))"
    and i: "\<And>ce. ce \<in> set (creneaux_expedition db) \<Longrightarrow> is_id (col ce ''id'')"
    and c: "list_all (\<lambda>c. is_id (col c ''id'')) (colis db)"
    using assms by (auto simp: pk_ok_def list_all_iff)
  have g: "group_by_id (filter (\<lambda>j. sql_eq (col (fst j) ''id'') k)
             (left_join (creneaux_expedition db) (colis db)))
           = map (\<lambda>ce. (ce, map snd (join_slot (colis db) ce)))
               (where_id k (creneaux_expedition db))"
    using group_by_left_join [OF d, of "\<lambda>ce. sql_eq (col ce ''id'') k"]
    by (simp add: where_id_def)
  have m: "\<forall>ce\<in>set (where_id k (creneaux_expedition db)).
             count_id (map snd (join_slot (colis db) ce)) = length (referencing db k)"
    by (auto simp: count_id_join_slot [OF c] i referencing_def sql_eq_def where_id_def)
  show ?thesis
    using assms(3) by (simp add: capacity_query_def g m)
qed

text \<open>A path parameter that the store reads as an integer passes the handlers' own check.\<close>

lemma pg_strtoint_not_hex:
  assumes "has_prefix_0 (CHR ''x'') (CHR ''X'') S"
  shows "\<not> (takeWhile (is_digit_in 10) S \<noteq> [] \<and> dropWhile is_space (dropWhile (is_digit_in 10) S) = [])"
proof -
  from assms obtain b t where S: "S = CHR ''0'' # b # t" and b: "b = CHR ''x'' \<or> b = CHR ''X''"
    by (auto simp: has_prefix_0_def split: list.splits)
  from b have "\<not> is_digit_in 10 b" "\<not> is_space b"
    by (auto simp: is_digit_in_def digit_val_def is_space_def)
  with S show ?thesis
    by (simp add: is_digit_in_def digit_val_def)
qed

lemma pg_strtoint_valid: "pg_strtoint s = Some n \<Longrightarrow> \<not> id_invalid s"
proof -
  assume a: "pg_strtoint s = Some n"
  obtain neg S where ss: "strip_sign (dropWhile is_space s) = (neg, S)"
    by (cases "strip_sign (dropWhile is_space s)")
  from a ss have Z: "takeWhile (is_digit_in 10) S \<noteq> []"
    and R: "dropWhile is_space (dropWhile (is_digit_in 10) S) = []"
    by (auto simp: pg_strtoint_def Let_def split: if_splits)
  with pg_strtoint_not_hex [of S] have nh: "\<not> has_prefix_0 (CHR ''x'') (CHR ''X'') S" by blast
  from Z ss have "s \<noteq> []" by (auto simp: strip_sign_def)
  moreover from Z ss nh have "parseInt s \<noteq> None"
    by (simp add: parseInt_def Let_def)
  ultimately show ?thesis by (simp add: id_invalid_def)
qed

lemma int_param_path:
  "pg_strtoint pid = Some n \<Longrightarrow> int_param (JStr pid) = Some (JNum (of_int n))"
  by (simp add: int_param_def pg_int_def)

section \<open>Properties of the update statements\<close>

lemma int_param_pg: "pg_int v = Some n \<Longrightarrow> int_param v = Some (JNum (of_int n))"
  by (cases v) (simp_all add: int_param_def pg_int_def)

lemma any_param_JStr: "any_param (JStr s) = JStr s"
  by (simp add: any_param_def)

lemma where_id_unique:
  "distinct (map (\<lambda>r. col r ''id'') rows) \<Longrightarrow> r \<in> set rows \<Longrightarrow> col r ''id'' = k \<Longrightarrow>
   k \<noteq> JNull \<Longrightarrow> where_id k rows = [r]"
proof (induction rows)
  case Nil then show ?case by simp
next
  case (Cons a rows)
  show ?case
  proof (cases "a = r")
    case True
    with Cons.prems have "\<forall>x\<in>set rows. col x ''id'' \<noteq> k" by (fastforce simp: image_iff)
    then have "filter (\<lambda>x. sql_eq (col x ''id'') k) rows = []"
      by (induction rows) (auto simp: sql_eq_def)
    with True Cons.prems show ?thesis by (simp add: where_id_def sql_eq_def)
  next
    case False
    with Cons.prems have "r \<in> set rows" "col a ''id'' \<noteq> k" "distinct (map (\<lambda>r. col r ''id'') rows)"
      by auto
    with Cons.IH Cons.prems show ?thesis by (simp add: where_id_def sql_eq_def)
  qed
qed

lemma where_id_mem: "r \<in> set (where_id k rows) \<Longrightarrow> r \<in> set rows \<and> col r ''id'' = k"
  by (auto simp: where_id_def sql_eq_def)

text \<open>Assigning the columns \<open>fs\<close> the values \<open>g\<close>: what a column holds afterwards.\<close>

lemma updates_map_lookup:
  "map_of (AList.updates fs (map g fs) r) k = (if k \<in> set fs then Some (g k) else map_of r k)"
proof (induction fs arbitrary: r)
  case Nil show ?case by simp
next
  case (Cons f fs)
  show ?case by (simp add: Cons.IH update_conv')
qed

lemma col_updates_map:
  "col (AList.updates fs (map g fs) r) k = (if k \<in> set fs then g k else col r k)"
  by (simp add: col_def updates_map_lookup)

lemma col_updates_pairs:
  "col (AList.updates (map fst (map (\<lambda>f. (f, g f)) fs)) (map snd (map (\<lambda>f. (f, g f)) fs)) r) k
     = (if k \<in> set fs then g k else col r k)"
  by (simp add: comp_def col_updates_map)

text \<open>The rows an update returns are the updated rows it matched, when it leaves the id alone.\<close>

lemma where_id_sql_update:
  assumes "''id'' \<notin> set (map fst sets)"
  shows "where_id k (sql_update sets k rows)
           = map (AList.updates (map fst sets) (map snd sets)) (where_id k rows)"
proof -
  have "col (AList.updates (map fst sets) (map snd sets) r) ''id'' = col r ''id''" for r
    using assms by (simp add: col_def)
  then show ?thesis
    by (induction rows) (simp_all add: where_id_def sql_update_def)
qed

lemma sql_update_no_match: "where_id k rows = [] \<Longrightarrow> sql_update sets k rows = rows"
  by (induction rows) (auto simp: where_id_def sql_update_def split: if_splits)

lemma coerce_cols_map:
  assumes "\<forall>f\<in>set fs. f \<in> set ints \<longrightarrow> int_param (g f) \<noteq> None"
  shows "coerce_cols ints (map (\<lambda>f. (f, g f)) fs) = Some (map (\<lambda>f. (f, bound ints g f)) fs)"
  using assms
  by (induction fs) (auto simp: coerce_cols_def bound_def)

lemma coerce_cols_fails:
  assumes "f \<in> set fs" and "f \<in> set ints" and "int_param (g f) = None"
  shows "coerce_cols ints (map (\<lambda>f. (f, g f)) fs) = None"
  using assms
  by (induction fs) (auto simp: coerce_cols_def split: option.splits)

lemma js_get_absent: "k \<notin> set (keys obj) \<Longrightarrow> js_get obj k = JUndefined"
proof -
  assume "k \<notin> set (keys obj)"
  then have "map_of obj k = None" by (simp add: keys_def map_of_eq_None_iff)
  then show ?thesis by (simp add: js_get_def)
qed

section \<open>Doubles\<close>

lemma bits_le: "n < 2 ^ k \<Longrightarrow> bits n \<le> k"
proof (induction k arbitrary: n)
  case 0
  then show ?case by (simp add: bits.simps)
next
  case (Suc k)
  from Suc.prems have "n div 2 < 2 ^ k" by simp
  from Suc.IH [OF this] show ?case by (subst bits.simps) simp
qed

lemma bits_pos: "0 < n \<Longrightarrow> 0 < bits n"
  by (subst bits.simps) simp

lemma bits_upper: "n < 2 ^ bits n"
proof (induction n rule: bits.induct)
  case (1 n)
  show ?case
  proof (cases "n = 0")
    case True
    then show ?thesis by simp
  next
    case False
    from 1 [OF False] have "n div 2 < 2 ^ bits (n div 2)" .
    then have "n < 2 * 2 ^ bits (n div 2)" by linarith
    with False show ?thesis by (subst bits.simps) simp
  qed
qed

lemma bits_lower: "0 < n \<Longrightarrow> 2 ^ (bits n - 1) \<le> n"
proof (induction n rule: bits.induct)
  case (1 n)
  from "1.prems" have n: "n \<noteq> 0" by simp
  then have b: "bits n = Suc (bits (n div 2))" by (subst bits.simps) simp
  show ?case
  proof (cases "n div 2 = 0")
    case True
    then have "bits (n div 2) = 0" by (simp add: bits.simps)
    with b "1.prems" show ?thesis by simp
  next
    case False
    then have pos: "0 < n div 2" by simp
    from "1.IH" [OF n pos] have "2 ^ (bits (n div 2) - 1) \<le> n div 2" .
    moreover from bits_pos [OF pos] have "bits (n div 2) = Suc (bits (n div 2) - 1)" by simp
    ultimately have "2 ^ bits (n div 2) \<le> 2 * (n div 2)"
      by (metis mult_le_mono2 power_Suc)
    then have "2 ^ bits (n div 2) \<le> n" by linarith
    with b show ?thesis by simp
  qed
qed

lemma round_half_even_int: "round_half_even (of_int k) = k"
  by (simp add: round_half_even_def)

lemma round_half_even_ge: "\<lfloor>m\<rfloor> \<le> round_half_even m"
  by (simp add: round_half_even_def Let_def)

lemma pow2_nonpos: "e \<le> 0 \<Longrightarrow> pow2 e = 1 / 2 ^ nat (- e)"
  by (cases "e = 0") (simp_all add: pow2_def)

lemma ilog2_int: "0 < n \<Longrightarrow> ilog2 (of_int n) = int (bits (nat n)) - 1"
  by (simp add: ilog2_def)

text \<open>Every integer below \<open>2 ^ 53\<close> in absolute value is a double.\<close>

lemma round_pos_int_exact:
  assumes "0 < n" and "n < 2 ^ 53"
  shows "round_pos (of_int n) = NumFin (of_int n)"
proof -
  let ?b = "bits (nat n)"
  let ?k = "53 - ?b"
  from assms have "nat n < 2 ^ 53"
    by (metis nat_less_numeral_power_cancel_iff)
  then have b53: "?b \<le> 53" by (rule bits_le)
  from assms(1) have b1: "0 < ?b" by (intro bits_pos) simp
  have e: "ilog2 (of_int n) = int ?b - 1" by (rule ilog2_int [OF assms(1)])
  from b1 have m: "max (int ?b - 1) (- 1022) = int ?b - 1" by simp
  from b53 b1 have "pow2 (int ?b - 1 - 52) = 1 / 2 ^ nat (- (int ?b - 1 - 52))"
    by (intro pow2_nonpos) simp
  moreover from b53 have "nat (- (int ?b - 1 - 52)) = ?k" by simp
  ultimately have q: "pow2 (int ?b - 1 - 52) = 1 / 2 ^ ?k" by simp
  have r: "round_half_even (of_int n / (1 / 2 ^ ?k)) = n * 2 ^ ?k"
    using round_half_even_int [of "n * 2 ^ ?k"] by simp
  have y: "(of_int (n * 2 ^ ?k) :: rat) * (1 / 2 ^ ?k) = of_int n" by simp
  from assms(2) have "(of_int n :: rat) < 2 ^ 53"
    by (metis of_int_less_numeral_power_cancel_iff)
  also have "(2::rat) ^ 53 \<le> 2 ^ 1024" by (rule power_increasing) simp_all
  finally have fin: "\<not> (2::rat) ^ 1024 \<le> of_int n" by simp
  show ?thesis
    unfolding round_pos_def e m q Let_def r y using fin by simp
qed

lemma to_double_int_exact:
  assumes "\<bar>n\<bar> < 2 ^ 53"
  shows "to_double (of_int n) = NumFin (of_int n)"
proof -
  consider "n = 0" | "0 < n" | "n < 0" by linarith
  then show ?thesis
  proof cases
    case 1
    then show ?thesis by (simp add: to_double_def)
  next
    case 2
    with assms have "round_pos (of_int n) = NumFin (of_int n)"
      by (intro round_pos_int_exact) simp_all
    with 2 show ?thesis by (simp add: to_double_def)
  next
    case 3
    with assms have "round_pos (of_int (- n)) = NumFin (of_int (- n))"
      by (intro round_pos_int_exact) simp_all
    with 3 show ?thesis by (simp add: to_double_def)
  qed
qed

lemma pow2_le_floor:
  assumes "(2::rat) ^ k \<le> x"
  shows "(2::nat) ^ k \<le> nat \<lfloor>x\<rfloor>"
proof -
  from assms have "(2::int) ^ k \<le> \<lfloor>x\<rfloor>" by (simp add: le_floor_iff)
  then have "nat ((2::int) ^ k) \<le> nat \<lfloor>x\<rfloor>" by (rule nat_mono)
  then show ?thesis by (simp add: nat_power_eq)
qed

lemma floor_ge_pow2:
  assumes "(2::nat) ^ j \<le> nat \<lfloor>x\<rfloor>"
  shows "(2::rat) ^ j \<le> x"
proof -
  have "0 < (2::nat) ^ j" by simp
  with assms have "int (2 ^ j) \<le> \<lfloor>x\<rfloor>" by linarith
  then have "(2::int) ^ j \<le> \<lfloor>x\<rfloor>" by simp
  then show ?thesis by (simp add: le_floor_iff)
qed

lemma round_pos_lower_gen:
  assumes "(2::rat) ^ k \<le> x" and "52 \<le> k"
  shows "round_pos x = NumPosInf \<or> (\<exists>y. round_pos x = NumFin y \<and> 2 ^ k \<le> y)"
proof -
  let ?n = "nat \<lfloor>x\<rfloor>"
  let ?b = "bits ?n"
  have "(1::rat) \<le> 2 ^ k" by simp
  with assms(1) have x1: "1 \<le> x" by linarith
  from pow2_le_floor [OF assms(1)] have nk: "(2::nat) ^ k \<le> ?n" .
  moreover have "0 < (2::nat) ^ k" by simp
  ultimately have npos: "0 < ?n" by linarith
  from nk bits_upper [of ?n] have "(2::nat) ^ k < 2 ^ ?b" by linarith
  then have kb: "k < ?b" by (rule power_less_imp_less_exp [rotated]) simp
  with assms(2) have b53: "53 \<le> ?b" by simp
  from x1 have e: "ilog2 x = int ?b - 1" by (simp add: ilog2_def)
  from b53 have m: "max (int ?b - 1) (- 1022) = int ?b - 1" by simp
  from b53 have "nat (int ?b - 1 - 52) = ?b - 53" by simp
  with b53 have q: "pow2 (int ?b - 1 - 52) = 2 ^ (?b - 53)"
    by (simp add: pow2_def)
  let ?q = "(2::rat) ^ (?b - 53)"
  let ?r = "round_half_even (x / ?q)"
  from bits_lower [OF npos] have "(2::nat) ^ (?b - 1) \<le> ?n" .
  then have lo: "(2::rat) ^ (?b - 1) \<le> x" by (rule floor_ge_pow2)
  from b53 have "?b - 1 = 52 + (?b - 53)" by simp
  then have split: "(2::rat) ^ (?b - 1) = 2 ^ 52 * ?q"
    by (simp only: power_add)
  have qpos: "0 < ?q" by simp
  from lo have "(2::rat) ^ 52 * ?q \<le> x" by (simp only: split)
  with qpos have "(2::rat) ^ 52 \<le> x / ?q" by (simp only: pos_le_divide_eq)
  then have "(2::int) ^ 52 \<le> \<lfloor>x / ?q\<rfloor>" by (simp add: le_floor_iff)
  with round_half_even_ge [of "x / ?q"] have "(2::int) ^ 52 \<le> ?r" by linarith
  then have "(of_int ((2::int) ^ 52) :: rat) \<le> of_int ?r" by (simp only: of_int_le_iff)
  then have "(2::rat) ^ 52 \<le> of_int ?r" by simp
  with qpos have "(2::rat) ^ 52 * ?q \<le> of_int ?r * ?q" by (simp only: mult_le_cancel_right_pos)
  then have "(2::rat) ^ (?b - 1) \<le> of_int ?r * ?q" by (simp only: split)
  moreover from kb have "(2::rat) ^ k \<le> 2 ^ (?b - 1)" by (intro power_increasing) simp_all
  ultimately have "(2::rat) ^ k \<le> of_int ?r * ?q" by linarith
  then show ?thesis
    unfolding round_pos_def e m q Let_def by simp
qed

lemma round_pos_lower:
  assumes "2 ^ 53 \<le> x"
  shows "round_pos x = NumPosInf \<or> (\<exists>y. round_pos x = NumFin y \<and> 2 ^ 53 \<le> y)"
  using assms by (intro round_pos_lower_gen) simp_all
text \<open>The text of an integer below \<open>2 ^ 53\<close> holds exactly that integer.\<close>

lemma shortest_decimal_exact:
  assumes "0 \<le> n" and "n < 2 ^ 53"
  shows "shortest_decimal j (of_int n) = n"
proof (induction j)
  case 0
  show ?case by simp
next
  case (Suc j)
  define u where "u = (10::int) ^ Suc j"
  define lo where "lo = n div u * u"
  define hi where "hi = lo + u"
  have u: "0 < u" by (simp add: u_def)
  from assms(1) u have "0 \<le> n div u" by (simp add: pos_imp_zdiv_nonneg_iff)
  with u have lo0: "0 \<le> lo" by (simp add: lo_def)
  from div_mult_mod_eq [of n u] pos_mod_sign [OF u, of n] have lon: "lo \<le> n"
    unfolding lo_def by linarith
  from div_mult_mod_eq [of n u] pos_mod_bound [OF u, of n] have hin: "n < hi"
    unfolding hi_def lo_def by linarith
  from lo0 lon assms(2) have "\<bar>lo\<bar> < 2 ^ 53" by linarith
  then have "to_double (of_int lo) = NumFin (of_int lo)" by (rule to_double_int_exact)
  then have a: "(to_double (of_int lo) = NumFin (of_int n)) = (lo = n)" by simp
  have b: "(to_double (of_int hi) = NumFin (of_int n)) = False"
  proof (cases "hi < 2 ^ 53")
    case True
    with lo0 u have "\<bar>hi\<bar> < 2 ^ 53" unfolding hi_def by linarith
    then have "to_double (of_int hi) = NumFin (of_int hi)" by (rule to_double_int_exact)
    with hin show ?thesis by simp
  next
    case False
    then have "(2::int) ^ 53 \<le> hi" by simp
    then have "(of_int ((2::int) ^ 53) :: rat) \<le> of_int hi" by (simp only: of_int_le_iff)
    then have h: "(2::rat) ^ 53 \<le> of_int hi" by simp
    from assms(2) have "(of_int n :: rat) < of_int ((2::int) ^ 53)" by (simp only: of_int_less_iff)
    then have nlt: "(of_int n :: rat) < 2 ^ 53" by simp
    from round_pos_lower [OF h] nlt
    have "round_pos (of_int hi) \<noteq> NumFin (of_int n)" by auto
    moreover from lo0 u have "0 < hi" by (simp add: hi_def)
    ultimately show ?thesis by (simp add: to_double_def)
  qed
  have "shortest_decimal (Suc j) (of_int n) = (if lo = n then lo else shortest_decimal j (of_int n))"
    unfolding shortest_decimal.simps Let_def floor_of_int
      u_def [symmetric] lo_def [symmetric] hi_def [symmetric]
    by (simp only: a b if_False simp_thms)
  with Suc.IH show ?case by simp
qed

lemma pg_int8_exact:
  assumes "0 \<le> n" and "n < 2 ^ 53"
  shows "pg_int8 (NumFin (of_int n)) = Some n"
proof -
  have "(2::int) ^ 53 < 10 ^ 21" by simp
  with assms(2) have "n < 10 ^ 21" by linarith
  then have "(of_int n :: rat) < of_int ((10::int) ^ 21)" by (simp only: of_int_less_iff)
  then have small: "\<bar>of_int n :: rat\<bar> < 10 ^ 21" using assms(1) by simp
  have "(2::int) ^ 53 < 2 ^ 63" by simp
  with assms have range: "- (2 ^ 63) \<le> n \<and> n < 2 ^ 63" by linarith
  from assms(1) have pos: "\<not> (of_int n :: rat) < 0" by simp
  show ?thesis
    unfolding pg_int8_def
    by (simp only: jsnum.case is_int_of_int small pos if_True if_False simp_thms Let_def
        shortest_decimal_exact [OF assms] range)
qed

section \<open>The page of a list\<close>

lemma pageNum_eq:
  "query_number q ''page'' 1 = NumFin (of_int p) \<Longrightarrow> pageNum q = NumFin (of_int (max 1 p))"
  by (simp add: pageNum_def Math_max_def max_def)

lemma limitNum_eq:
  "query_number q ''limit'' 10 = NumFin (of_int l) \<Longrightarrow>
   limitNum q = NumFin (of_int (min 100 (max 1 l)))"
  by (simp add: limitNum_def Math_max_def Math_min_def max_def min_def)

lemma offset_eq:
  assumes "query_number q ''page'' 1 = NumFin (of_int p)"
    and "query_number q ''limit'' 10 = NumFin (of_int l)"
    and "max 1 p * min 100 (max 1 l) < 2 ^ 53"
  shows "offset q = NumFin (of_int ((max 1 p - 1) * min 100 (max 1 l)))"
    and "0 \<le> (max 1 p - 1) * min 100 (max 1 l)"
    and "(max 1 p - 1) * min 100 (max 1 l) < 2 ^ 53"
proof -
  define P where "P = max 1 p"
  define L where "L = min 100 (max 1 l)"
  have P: "1 \<le> P" and L: "1 \<le> L" by (simp_all add: P_def L_def)
  from assms(3) have PL: "P * L < 2 ^ 53" by (simp add: P_def L_def)
  from P L have "P * 1 \<le> P * L" by (intro mult_left_mono) simp_all
  then have "P \<le> P * L" by simp
  with PL P have P1: "\<bar>P - 1\<bar> < 2 ^ 53" by linarith
  from P L have "(P - 1) * L \<le> P * L" by (intro mult_right_mono) simp_all
  moreover from P L have nonneg: "0 \<le> (P - 1) * L" by simp
  ultimately have off: "\<bar>(P - 1) * L\<bar> < 2 ^ 53" using PL by linarith
  have "num_sub (NumFin (of_int P)) (NumFin 1) = to_double (of_int (P - 1))" by simp
  also have "\<dots> = NumFin (of_int (P - 1))" by (rule to_double_int_exact [OF P1])
  finally have sub: "num_sub (NumFin (of_int P)) (NumFin 1) = NumFin (of_int (P - 1))" .
  have "num_mul (NumFin (of_int (P - 1))) (NumFin (of_int L)) = to_double (of_int ((P - 1) * L))"
    by simp
  also have "\<dots> = NumFin (of_int ((P - 1) * L))" by (rule to_double_int_exact [OF off])
  finally have mul: "num_mul (NumFin (of_int (P - 1))) (NumFin (of_int L))
      = NumFin (of_int ((P - 1) * L))" .
  show "offset q = NumFin (of_int ((max 1 p - 1) * min 100 (max 1 l)))"
    unfolding offset_def pageNum_eq [OF assms(1)] limitNum_eq [OF assms(2)]
      P_def [symmetric] L_def [symmetric] sub mul ..
  from nonneg show "0 \<le> (max 1 p - 1) * min 100 (max 1 l)" by (simp only: P_def L_def)
  from off nonneg show "(max 1 p - 1) * min 100 (max 1 l) < 2 ^ 53"
    unfolding P_def L_def by linarith
qed

lemma query_number_default: "map_of q name = None \<Longrightarrow> query_number q name d = NumFin (of_int d)"
  by (simp add: query_number_def)

section \<open>What the store reads of an offset\<close>

lemma pow2_pos: "0 < pow2 e"
  by (simp add: pow2_def)

lemma round_half_even_nonneg: "0 \<le> m \<Longrightarrow> 0 \<le> round_half_even m"
  using round_half_even_ge [of m] by (simp add: order_trans [of 0 "\<lfloor>m\<rfloor>"])

lemma to_double_nonneg:
  assumes "0 \<le> x"
  shows "to_double x = NumPosInf \<or> (\<exists>y. to_double x = NumFin y \<and> 0 \<le> y)"
proof (cases "x = 0")
  case True
  then show ?thesis by (simp add: to_double_def)
next
  case False
  with assms have pos: "0 < x" by simp
  define q where "q = pow2 (max (ilog2 x) (- 1022) - 52)"
  have q: "0 < q" unfolding q_def by (rule pow2_pos)
  with pos have "0 \<le> x / q" by simp
  then have "0 \<le> round_half_even (x / q)" by (rule round_half_even_nonneg)
  with q have "0 \<le> of_int (round_half_even (x / q)) * q" by simp
  then have "round_pos x = NumPosInf \<or> (\<exists>y. round_pos x = NumFin y \<and> 0 \<le> y)"
    unfolding round_pos_def q_def [symmetric] Let_def by simp
  with pos show ?thesis by (simp add: to_double_def)
qed

lemma shortest_decimal_nonneg: "0 \<le> x \<Longrightarrow> 0 \<le> shortest_decimal j x"
proof (induction j)
  case 0
  then show ?case by simp
next
  case (Suc j)
  define u where "u = (10::int) ^ Suc j"
  have u: "0 < u" by (simp add: u_def)
  from Suc.prems have "0 \<le> \<lfloor>x\<rfloor> div u" using u by (simp add: pos_imp_zdiv_nonneg_iff)
  with u have lo: "0 \<le> \<lfloor>x\<rfloor> div u * u" by simp
  with u have hi: "0 \<le> \<lfloor>x\<rfloor> div u * u + u" by simp
  from Suc.IH [OF Suc.prems] lo hi show ?case
    unfolding shortest_decimal.simps Let_def u_def [symmetric]
    by (simp only: split: if_split) simp
qed

lemma pg_int8_nonneg:
  assumes "pg_int8 (NumFin y) = Some v" and "0 \<le> y"
  shows "0 \<le> v"
proof -
  from assms(2) have "\<not> y < 0" by simp
  with assms(1) have "v = shortest_decimal 20 y"
    by (simp add: pg_int8_def Let_def split: if_splits)
  with shortest_decimal_nonneg [OF assms(2)] show ?thesis by simp
qed

lemma offset_nonneg:
  assumes "query_number q ''page'' 1 = NumFin (of_int p)"
    and "query_number q ''limit'' 10 = NumFin (of_int l)"
    and "pg_int8 (offset q) = Some off"
  shows "0 \<le> off"
proof -
  define P where "P = max 1 p"
  define L where "L = min 100 (max 1 l)"
  have P: "1 \<le> P" and L: "1 \<le> L" by (simp_all add: P_def L_def)
  have o: "offset q = num_mul (to_double (of_int (P - 1))) (NumFin (of_int L))"
    unfolding offset_def pageNum_eq [OF assms(1)] limitNum_eq [OF assms(2)]
      P_def [symmetric] L_def [symmetric] by simp
  from P have "(0::rat) \<le> of_int (P - 1)" by simp
  from to_double_nonneg [OF this] consider "to_double (of_int (P - 1)) = NumPosInf"
    | a where "to_double (of_int (P - 1)) = NumFin a" "0 \<le> a" by blast
  then show ?thesis
  proof cases
    case 1
    with L have "offset q = NumPosInf" unfolding o by simp
    with assms(3) show ?thesis by (simp add: pg_int8_def)
  next
    case 2
    from 2(2) L have "0 \<le> a * of_int L" by simp
    from to_double_nonneg [OF this] consider "to_double (a * of_int L) = NumPosInf"
      | y where "to_double (a * of_int L) = NumFin y" "0 \<le> y" by blast
    then show ?thesis
    proof cases
      case 1
      with 2(1) have "offset q = NumPosInf" unfolding o by simp
      with assms(3) show ?thesis by (simp add: pg_int8_def)
    next
      case (2 y)
      with \<open>to_double (of_int (P - 1)) = NumFin a\<close> have "offset q = NumFin y"
        unfolding o by simp
      with assms(3) 2(2) show ?thesis by (auto intro: pg_int8_nonneg)
    qed
  qed
qed

text \<open>
  The response of a list whose page and limit are the numbers \<open>p\<close> and \<open>l\<close> and whose
  offset the store reads as \<open>off\<close>.
\<close>

lemma list_response_read:
  assumes "query_number q ''page'' 1 = NumFin (of_int p)"
    and "query_number q ''limit'' 10 = NumFin (of_int l)"
    and "pg_int8 (offset q) = Some off"
  shows "list_response le cols q rows n
           = Response 200 (PageJson
               (take (nat (min 100 (max 1 l)))
                  (drop (nat off) (order_by le (sortColumn cols q) (sortOrder q) rows)))
               \<lparr>page = NumFin (of_int (max 1 p)),
                limit = NumFin (of_int (min 100 (max 1 l))),
                total_rows = to_double (of_nat n),
                totalPages = Math_ceil (num_div (to_double (of_nat n))
                               (NumFin (of_int (min 100 (max 1 l))))),
                hasNext = num_less (NumFin (of_int (max 1 p)))
                            (Math_ceil (num_div (to_double (of_nat n))
                               (NumFin (of_int (min 100 (max 1 l)))))),
                hasPrev = (1 < max 1 p)\<rparr>)"
proof -
  define P where "P = max 1 p"
  define L where "L = min 100 (max 1 l)"
  have L: "0 \<le> L" "L < 2 ^ 53" by (simp_all add: L_def)
  have lim: "pg_int8 (limitNum q) = Some L"
    unfolding limitNum_eq [OF assms(2)] L_def [symmetric] by (rule pg_int8_exact [OF L])
  note off = offset_nonneg [OF assms]
  have prev: "num_less (NumFin 1) (NumFin (of_int P)) = (1 < P)"
    by (auto simp: num_less_def)
  show ?thesis
    unfolding list_response_def lim assms(3) P_def [symmetric] L_def [symmetric]
    using L(1) off
    by (simp add: limit_offset_def page_response_def pageNum_eq [OF assms(1)]
        limitNum_eq [OF assms(2)] P_def [symmetric] L_def [symmetric] prev Let_def)
qed

lemma offset_read_exact:
  assumes "query_number q ''page'' 1 = NumFin (of_int p)"
    and "query_number q ''limit'' 10 = NumFin (of_int l)"
    and "max 1 p * min 100 (max 1 l) < 2 ^ 53"
  shows "pg_int8 (offset q) = Some ((max 1 p - 1) * min 100 (max 1 l))"
  unfolding offset_eq(1) [OF assms] by (rule pg_int8_exact [OF offset_eq(2,3) [OF assms]])

section \<open>The number of pages\<close>









section \<open>Package creation and the capacity of the slot\<close>

lemma int_param_truthy:
  "truthy v \<Longrightarrow> pg_int v = Some n \<Longrightarrow> int_param v = Some (JNum (of_int n))"
  by (rule int_param_pg)

lemma capacity_check_eq:
  assumes "wf_store db" and "truthy v" and "pg_int v = Some sid"
  shows "capacity_check db v =
           (case where_id (JNum (of_int sid)) (creneaux_expedition db) of
              [] \<Rightarrow> Some (bad_request ''Creneau specifie introuvable'')
            | ce # rest \<Rightarrow>
                if num_le (to_number (col ce ''capacite_max''))
                     (NumFin (of_nat (length (referencing db (JNum (of_int sid))))))
                then Some (bad_request ''Le creneau a atteint sa capacite maximale'')
                else None)"
proof -
  from assms(1) have pk: "pk_ok (creneaux_expedition db)" "pk_ok (colis db)"
    by (simp_all add: wf_store_def)
  note q = capacity_query_eq [OF pk int_param_truthy [OF assms(2,3)]]
  show ?thesis
    using assms(2) by (simp add: capacity_check_def q col_def split: list.split)
qed

lemma colis_post_checks_status: "colis_post_checks body = Some r \<Longrightarrow> status r = 400"
  by (auto simp: colis_post_checks_def bad_request_def split: option.splits if_splits)

lemma colis_post_capacity_rejects:
  assumes "capacity_check db (js_get body ''creneau_id'') = Some (bad_request msg)"
  shows "status (fst (colis_post db new_id now rnd body)) = 400
         \<and> snd (colis_post db new_id now rnd body) = db"
  using assms
  by (auto simp: colis_post_def bad_request_def dest: colis_post_checks_status split: option.splits)

lemma colis_post_changes:
  assumes "snd (colis_post db new_id now rnd body) \<noteq> db"
  shows "capacity_check db (js_get body ''creneau_id'') = None"
  using assms
  by (auto simp: colis_post_def split: option.splits)

lemma slot_with_room_is_number:
  assumes "wf_store db" and "ce \<in> set (creneaux_expedition db)"
    and "\<not> num_le (to_number (col ce ''capacite_max'')) (NumFin (of_nat n))"
  shows "\<exists>q. col ce ''capacite_max'' = JNum q \<and> of_nat n < q"
proof -
  from assms(1,2) have "int_col (col ce ''capacite_max'')"
    by (auto simp: wf_store_def list_all_iff)
  with assms(3) show ?thesis
    by (cases "col ce ''capacite_max''") (auto simp: int_col_def is_id_def)
qed

lemma colis_post_inserts:
  assumes "colis_post_checks body = None"
    and "capacity_check db (js_get body ''creneau_id'') = None"
    and "int_param (js_get body ''creneau_id'') = Some k"
    and "k = JNull \<or> where_id k (creneaux_expedition db) \<noteq> []"
    and "where_id (JNum (of_int new_id)) (colis db) = []"
  shows "\<exists>r. colis_post db new_id now rnd body
               = (Response 201 (RowJson r), db\<lparr>colis := colis db @ [r]\<rparr>)
             \<and> col r ''creneau_id'' = k
             \<and> col r ''numero_suivi'' = JStr (numero_suivi now rnd)
             \<and> col r ''statut'' = JStr ''en_attente''"
proof -
  have fk: "fk_ok db ((''creneau_id'', k) # rest)" for rest
    using assms(4) by (auto simp: fk_ok_def)
  show ?thesis
    using assms(1,2,3,5)
    by (simp add: colis_post_def insert_colis_def coerce_cols_def fk col_def Let_def
        any_param_JStr)
qed

text \<open>
  C1, as amended. A package creation whose slot reference is truthy and an integer is
  answered 400 with the store unchanged when no slot has that id, and when the slot's
  packages are at least as many as its maximum capacity; the store changes only when
  the slot exists and holds fewer packages than its capacity; and then, the other
  checks passed and the new identifier free, the package is inserted with status 201.
\<close>

theorem colis_post_capacity_gate:
  assumes "wf_store db"
    and "truthy (js_get body ''creneau_id'')"
    and "pg_int (js_get body ''creneau_id'') = Some sid"
  shows
    "(where_id (JNum (of_int sid)) (creneaux_expedition db) = [] \<longrightarrow>
        status (fst (colis_post db new_id now rnd body)) = 400
        \<and> snd (colis_post db new_id now rnd body) = db)
     \<and> (\<forall>ce q. ce \<in> set (creneaux_expedition db) \<and> col ce ''id'' = JNum (of_int sid)
            \<and> col ce ''capacite_max'' = JNum q
            \<and> q \<le> of_nat (length (referencing db (JNum (of_int sid)))) \<longrightarrow>
        status (fst (colis_post db new_id now rnd body)) = 400
        \<and> snd (colis_post db new_id now rnd body) = db)
     \<and> (snd (colis_post db new_id now rnd body) \<noteq> db \<longrightarrow>
        (\<exists>ce q. ce \<in> set (creneaux_expedition db) \<and> col ce ''id'' = JNum (of_int sid)
            \<and> col ce ''capacite_max'' = JNum q
            \<and> of_nat (length (referencing db (JNum (of_int sid)))) < q))
     \<and> (\<forall>ce q. ce \<in> set (creneaux_expedition db) \<and> col ce ''id'' = JNum (of_int sid)
            \<and> col ce ''capacite_max'' = JNum q
            \<and> of_nat (length (referencing db (JNum (of_int sid)))) < q
            \<and> colis_post_checks body = None
            \<and> where_id (JNum (of_int new_id)) (colis db) = [] \<longrightarrow>
        (\<exists>r. colis_post db new_id now rnd body
               = (Response 201 (RowJson r), db\<lparr>colis := colis db @ [r]\<rparr>)
             \<and> col r ''creneau_id'' = JNum (of_int sid)))"
proof -
  let ?k = "JNum (of_int sid)"
  let ?n = "length (referencing db ?k)"
  let ?res = "colis_post db new_id now rnd body"
  note cc = capacity_check_eq [OF assms]
  from assms(1) have d: "distinct (map (\<lambda>r. col r ''id'') (creneaux_expedition db))"
    by (simp add: wf_store_def pk_ok_def)
  have one: "where_id ?k (creneaux_expedition db) = [ce]"
    if "ce \<in> set (creneaux_expedition db)" "col ce ''id'' = ?k" for ce
    using where_id_unique [OF d that] by simp
  have absent: "status (fst ?res) = 400 \<and> snd ?res = db"
    if "where_id ?k (creneaux_expedition db) = []"
    using that cc by (intro colis_post_capacity_rejects) simp
  have full: "status (fst ?res) = 400 \<and> snd ?res = db"
    if "ce \<in> set (creneaux_expedition db)" "col ce ''id'' = ?k"
      "col ce ''capacite_max'' = JNum q" "q \<le> of_nat ?n" for ce q
    using that cc one [OF that(1,2)] by (intro colis_post_capacity_rejects) simp
  have only: "\<exists>ce q. ce \<in> set (creneaux_expedition db) \<and> col ce ''id'' = ?k
            \<and> col ce ''capacite_max'' = JNum q \<and> of_nat ?n < q"
    if "snd ?res \<noteq> db"
  proof -
    from colis_post_changes [OF that] cc
    obtain ce rest where w: "where_id ?k (creneaux_expedition db) = ce # rest"
      and nf: "\<not> num_le (to_number (col ce ''capacite_max'')) (NumFin (of_nat ?n))"
      by (auto split: list.splits if_splits)
    from w have m: "ce \<in> set (creneaux_expedition db) \<and> col ce ''id'' = ?k"
      by (intro where_id_mem) simp
    with slot_with_room_is_number [OF assms(1) _ nf] show ?thesis by blast
  qed
  have room: "\<exists>r. ?res = (Response 201 (RowJson r), db\<lparr>colis := colis db @ [r]\<rparr>)
             \<and> col r ''creneau_id'' = ?k"
    if "ce \<in> set (creneaux_expedition db)" "col ce ''id'' = ?k"
      "col ce ''capacite_max'' = JNum q" "of_nat ?n < q"
      "colis_post_checks body = None" "where_id (JNum (of_int new_id)) (colis db) = []" for ce q
  proof -
    from that cc one [OF that(1,2)]
    have "capacity_check db (js_get body ''creneau_id'') = None" by simp
    from colis_post_inserts [OF that(5) this int_param_truthy [OF assms(2,3)] _ that(6)]
      one [OF that(1,2)]
    show ?thesis by auto
  qed
  from absent full only room show ?thesis by blast
qed

lemmas example_rows = slot_row_def package_row_def reservation_row_def package_body_def
  one_slot_store_def no_slot_store_def

lemmas store_simps = wf_store_def pk_ok_def is_id_def int_col_def is_int_iff col_def Let_def
  where_id_def sql_eq_def referencing_def js_get_def

lemmas pg_int_simps = pg_int_def pg_strtoint_def strip_sign_def is_space_def is_digit_in_def
  digit_val_def digits_value_def int_param_def

lemmas parseInt_simps = parseInt_def strip_sign_def is_space_def has_prefix_0_def
  is_digit_in_def digit_val_def digits_value_def id_invalid_def

theorem colis_post_capacity_gate_witness:
  "wf_store (one_slot_store 3 1 [package_row 10 (JNum 3) ''en_attente''])
   \<and> truthy (js_get (package_body (JNum 3)) ''creneau_id'')
   \<and> pg_int (js_get (package_body (JNum 3)) ''creneau_id'') = Some 3
   \<and> status (fst (colis_post (one_slot_store 3 1 [package_row 10 (JNum 3) ''en_attente''])
        11 1700000000000 ''0.k3j9x2m1q8zw'' (package_body (JNum 3)))) = 400
   \<and> snd (colis_post (one_slot_store 3 1 [package_row 10 (JNum 3) ''en_attente''])
        11 1700000000000 ''0.k3j9x2m1q8zw'' (package_body (JNum 3)))
      = one_slot_store 3 1 [package_row 10 (JNum 3) ''en_attente'']"
proof -
  let ?db = "one_slot_store 3 1 [package_row 10 (JNum 3) ''en_attente'']"
  let ?body = "package_body (JNum 3)"
  have wf: "wf_store ?db"
    by (simp add: example_rows store_simps)
  have tr: "truthy (js_get ?body ''creneau_id'')"
    by (simp add: example_rows js_get_def)
  have pg: "pg_int (js_get ?body ''creneau_id'') = Some 3"
    by (simp add: example_rows js_get_def pg_int_def is_int_iff)
  have slot: "slot_row 3 1 \<in> set (creneaux_expedition ?db)"
    "col (slot_row 3 1) ''id'' = JNum (of_int 3)"
    "col (slot_row 3 1) ''capacite_max'' = JNum 1"
    "(1::rat) \<le> of_nat (length (referencing ?db (JNum (of_int 3))))"
    by (simp_all add: example_rows store_simps)
  from colis_post_capacity_gate [OF wf tr pg, of 11 1700000000000 "''0.k3j9x2m1q8zw''"] slot
  have "status (fst (colis_post ?db 11 1700000000000 ''0.k3j9x2m1q8zw'' ?body)) = 400
        \<and> snd (colis_post ?db 11 1700000000000 ''0.k3j9x2m1q8zw'' ?body) = ?db"
    by blast
  with wf tr pg show ?thesis by simp
qed

text \<open>
  C1 as stated fails for the slot reference 0, which \<^verbatim>\<open>if (creneau_id)\<close> takes for no
  reference. With no slot 0 the request reaches the insert and is answered 500 by the
  foreign key, not 400; were there a slot 0, full with one package for a capacity of
  one, the request would be answered 201 and a second package stored.
\<close>

theorem colis_post_zero_reference_counterexample:
  "js_get (package_body (JNum 0)) ''creneau_id'' = JNum 0
   \<and> where_id (JNum 0) (creneaux_expedition no_slot_store) = []
   \<and> status (fst (colis_post no_slot_store 1 1700000000000 ''0.k3j9x2m1q8zw''
        (package_body (JNum 0)))) = 500
   \<and> length (referencing (one_slot_store 0 1 [package_row 10 (JNum 0) ''en_attente'']) (JNum 0)) = 1
   \<and> col (slot_row 0 1) ''capacite_max'' = JNum 1
   \<and> status (fst (colis_post (one_slot_store 0 1 [package_row 10 (JNum 0) ''en_attente''])
        11 1700000000000 ''0.k3j9x2m1q8zw'' (package_body (JNum 0)))) = 201
   \<and> length (colis (snd (colis_post (one_slot_store 0 1 [package_row 10 (JNum 0) ''en_attente''])
        11 1700000000000 ''0.k3j9x2m1q8zw'' (package_body (JNum 0))))) = 2"
proof -
  have checks: "colis_post_checks (package_body (JNum 0)) = None"
    by (simp add: colis_post_checks_def missing_field_def requiredFields_def example_rows
        js_get_def le_zero_def)
  have cap: "capacity_check db (js_get (package_body (JNum 0)) ''creneau_id'') = None" for db
    by (simp add: capacity_check_def example_rows js_get_def)
  show ?thesis
    unfolding colis_post_def checks cap
    by (simp add: insert_colis_def coerce_cols_def fk_ok_def int_param_def pg_int_def
        any_param_def js_or_def example_rows store_simps internal_error_def)
qed

section \<open>The derived fields of a slot\<close>

lemma set_insert_by: "set (insert_by le x xs) = insert x (set xs)"
  by (induction xs) auto

lemma length_insert_by: "length (insert_by le x xs) = Suc (length xs)"
  by (induction xs) auto

lemma set_order_by: "set (order_by le c desc rows) = set rows"
  by (induction rows) (simp_all add: order_by_def set_insert_by)

lemma length_order_by: "length (order_by le c desc rows) = length rows"
  by (induction rows) (simp_all add: order_by_def length_insert_by)

lemma list_response_rows:
  assumes "list_response le cols q rows n = Response 200 (PageJson page_rows pg)"
  shows "set page_rows \<subseteq> set rows"
proof -
  from assms obtain l off c d
    where "page_rows = take l (drop off (order_by le c d rows))"
    by (auto simp: list_response_def page_response_def internal_error_def Let_def
        limit_offset_def split: option.splits if_splits)
  moreover have "set (take l (drop off (order_by le c d rows))) \<subseteq> set (order_by le c d rows)"
    by (meson order_trans set_drop_subset set_take_subset)
  ultimately show ?thesis by (simp add: set_order_by)
qed

lemma usage_select_spec:
  assumes "wf_store db"
  shows "usage_select wh db = map (spec_usage_row db) (filter wh (creneaux_expedition db))"
proof -
  from assms have pk: "pk_ok (creneaux_expedition db)" "pk_ok (colis db)"
    by (simp_all add: wf_store_def)
  show ?thesis
    unfolding usage_select_eq [OF pk]
    by (rule map_cong) (simp_all add: spec_usage_row_def referencing_def sql_minus_def Let_def)
qed

lemma creneaux_get_row:
  assumes "wf_store db" and "ce \<in> set (creneaux_expedition db)"
    and "\<not> id_invalid pid" and "int_param (JStr pid) = Some (col ce ''id'')"
  shows "creneaux_get db pid = Response 200 (RowJson (spec_usage_row db ce))"
proof -
  from assms(1) have d: "distinct (map (\<lambda>r. col r ''id'') (creneaux_expedition db))"
    and i: "is_id (col ce ''id'')"
    using assms(2) by (auto simp: wf_store_def pk_ok_def list_all_iff)
  from i have "col ce ''id'' \<noteq> JNull" by (auto simp: is_id_def)
  from where_id_unique [OF d assms(2) refl this]
  have "filter (\<lambda>r. sql_eq (col r ''id'') (col ce ''id'')) (creneaux_expedition db) = [ce]"
    by (simp add: where_id_def)
  then show ?thesis
    using assms(3,4) by (simp add: creneaux_get_def usage_select_spec [OF assms(1)])
qed

lemma creneaux_list_default:
  assumes "wf_store db" and "map_of q ''page'' = None" and "map_of q ''limit'' = None"
    and "search_of q = None" and "length (creneaux_expedition db) \<le> 10"
  shows "\<exists>rows pg. creneaux_list le db q = Response 200 (PageJson rows pg)
           \<and> set rows = spec_usage_row db ` set (creneaux_expedition db)"
proof -
  let ?rows = "order_by le (sortColumn allowedSortColumns_creneaux q) (sortOrder q)
      (usage_select (\<lambda>ce. True) db)"
  from assms(1,5) have "length ?rows \<le> 10"
    by (simp add: length_order_by usage_select_spec)
  then have all: "take (nat (min 100 (max 1 10))) (drop (nat ((max 1 1 - 1) * min 100 (max 1 10))) ?rows)
      = ?rows"
    by simp
  have small: "max 1 1 * min 100 (max 1 (10::int)) < 2 ^ 53" by simp
  note dflt = query_number_default [OF assms(2), of 1] query_number_default [OF assms(3), of 10]
  from list_response_read [OF dflt offset_read_exact [OF dflt small],
      of le allowedSortColumns_creneaux "usage_select (\<lambda>ce. True) db"
      "length (creneaux_expedition db)"]
  obtain pg where "list_response le allowedSortColumns_creneaux q (usage_select (\<lambda>ce. True) db)
      (length (creneaux_expedition db)) = Response 200 (PageJson ?rows pg)"
    unfolding all by blast
  moreover from assms(1) have "set ?rows = spec_usage_row db ` set (creneaux_expedition db)"
    by (simp add: set_order_by usage_select_spec)
  ultimately show ?thesis
    using assms(4) by (simp add: creneaux_list_def)
qed

text \<open>
  C2. In a store whose primary keys hold, get-by-id answers the slot's row followed by
  its package count and its remaining capacity as the specification defines them; every
  row of a list response is such a row; a slot that no package references is given the
  count 0 and its whole capacity; and it appears in the list (here for the default page
  and limit, when the table has at most ten slots).
\<close>

theorem slot_usage_fields:
  assumes "wf_store db"
  shows
    "(\<forall>ce pid. ce \<in> set (creneaux_expedition db) \<and> \<not> id_invalid pid
         \<and> int_param (JStr pid) = Some (col ce ''id'') \<longrightarrow>
        creneaux_get db pid = Response 200 (RowJson (spec_usage_row db ce)))
     \<and> (\<forall>rows pg r. creneaux_list le db q = Response 200 (PageJson rows pg) \<and> r \<in> set rows \<longrightarrow>
        (\<exists>ce. ce \<in> set (creneaux_expedition db) \<and> r = spec_usage_row db ce))
     \<and> (\<forall>ce cap. ce \<in> set (creneaux_expedition db) \<and> col ce ''capacite_max'' = JNum cap
         \<and> referencing db (col ce ''id'') = [] \<longrightarrow>
        spec_usage_row db ce
          = ce @ [(''nombre_colis_actuels'', JNum 0), (''places_restantes'', JNum cap)])
     \<and> (map_of q ''page'' = None \<and> map_of q ''limit'' = None \<and> search_of q = None
         \<and> length (creneaux_expedition db) \<le> 10 \<longrightarrow>
        (\<exists>rows pg. creneaux_list le db q = Response 200 (PageJson rows pg)
           \<and> set rows = spec_usage_row db ` set (creneaux_expedition db)))"
proof -
  have rows: "\<exists>ce. ce \<in> set (creneaux_expedition db) \<and> r = spec_usage_row db ce"
    if "creneaux_list le db q = Response 200 (PageJson rows pg)" "r \<in> set rows" for rows pg r
  proof -
    from that(1) have "set rows \<subseteq> set (usage_select (\<lambda>ce. True) db)"
      by (auto simp: creneaux_list_def internal_error_def split: option.splits
          dest: list_response_rows)
    with that(2) show ?thesis
      by (auto simp: usage_select_spec [OF assms])
  qed
  have zero: "spec_usage_row db ce
          = ce @ [(''nombre_colis_actuels'', JNum 0), (''places_restantes'', JNum cap)]"
    if "col ce ''capacite_max'' = JNum cap" "referencing db (col ce ''id'') = []" for ce cap
    using that by (simp add: spec_usage_row_def referencing_def)
  from creneaux_get_row [OF assms] rows zero creneaux_list_default [OF assms]
  show ?thesis by blast
qed

theorem slot_usage_fields_witness:
  "wf_store (one_slot_store 3 5 [package_row 10 (JNum 3) ''en_attente'', package_row 11 JNull ''livre''])
   \<and> creneaux_get (one_slot_store 3 5 [package_row 10 (JNum 3) ''en_attente'', package_row 11 JNull ''livre'']) ''3''
       = Response 200 (RowJson (slot_row 3 5 @
           [(''nombre_colis_actuels'', JNum 1), (''places_restantes'', JNum 4)]))
   \<and> creneaux_get (one_slot_store 3 5 []) ''3''
       = Response 200 (RowJson (slot_row 3 5 @
           [(''nombre_colis_actuels'', JNum 0), (''places_restantes'', JNum 5)]))"
proof -
  let ?db = "one_slot_store 3 5 [package_row 10 (JNum 3) ''en_attente'', package_row 11 JNull ''livre'']"
  let ?empty = "one_slot_store 3 5 []"
  have wf: "wf_store ?db" "wf_store ?empty"
    by (simp_all add: example_rows store_simps)
  have slot: "slot_row 3 5 \<in> set (creneaux_expedition ?db)" "slot_row 3 5 \<in> set (creneaux_expedition ?empty)"
    by (simp_all add: example_rows)
  have pid: "\<not> id_invalid ''3''" "int_param (JStr ''3'') = Some (col (slot_row 3 5) ''id'')"
    by (simp_all add: parseInt_simps pg_int_simps example_rows col_def)
  have spec: "spec_usage_row ?db (slot_row 3 5)
      = slot_row 3 5 @ [(''nombre_colis_actuels'', JNum 1), (''places_restantes'', JNum 4)]"
    "spec_usage_row ?empty (slot_row 3 5)
      = slot_row 3 5 @ [(''nombre_colis_actuels'', JNum 0), (''places_restantes'', JNum 5)]"
    by (simp_all add: spec_usage_row_def example_rows col_def Let_def)
  from slot_usage_fields [OF wf(1), of "\<lambda>a b. True" "[]"] slot(1) pid
  have "creneaux_get ?db ''3'' = Response 200 (RowJson (spec_usage_row ?db (slot_row 3 5)))"
    by blast
  moreover from slot_usage_fields [OF wf(2), of "\<lambda>a b. True" "[]"] slot(2) pid
  have "creneaux_get ?empty ''3'' = Response 200 (RowJson (spec_usage_row ?empty (slot_row 3 5)))"
    by blast
  ultimately show ?thesis using wf spec by simp
qed

section \<open>Deleting a slot\<close>

lemma count_referencing:
  "k \<noteq> JNull \<Longrightarrow> filter (\<lambda>c. sql_eq (col c ''creneau_id'') k) (colis db) = referencing db k"
  by (auto simp: referencing_def sql_eq_def intro: filter_cong)

lemma filter_not_id:
  "k \<noteq> JNull \<Longrightarrow> filter (\<lambda>r. \<not> sql_eq (col r ''id'') k) rows = filter (\<lambda>r. col r ''id'' \<noteq> k) rows"
  by (auto simp: sql_eq_def intro: filter_cong)

text \<open>
  C3. For a path parameter that is an integer id: when at least one package references
  the slot, the delete is answered 400 with the conflict message and the store is
  unchanged; when none does and the slot exists, the slot row is removed (nothing else
  changes) and the removed row is returned; when none does and no slot has the id, the
  answer is 404 and the store is unchanged.
\<close>

theorem creneaux_delete_guard:
  assumes "wf_store db" and "pg_strtoint pid = Some n"
  shows
    "(referencing db (JNum (of_int n)) \<noteq> [] \<longrightarrow>
        creneaux_delete db pid
          = (Response 400 (ErrorJson
               ''Impossible de supprimer le creneau: des colis y sont associes''), db))
     \<and> (\<forall>ce. referencing db (JNum (of_int n)) = [] \<and> ce \<in> set (creneaux_expedition db)
            \<and> col ce ''id'' = JNum (of_int n) \<longrightarrow>
          creneaux_delete db pid
            = (Response 200 (DeletedJson ''Creneau supprime'' ce),
               db\<lparr>creneaux_expedition :=
                    filter (\<lambda>r. col r ''id'' \<noteq> JNum (of_int n)) (creneaux_expedition db)\<rparr>)
          \<and> ce \<notin> set (creneaux_expedition (snd (creneaux_delete db pid)))
          \<and> colis (snd (creneaux_delete db pid)) = colis db)
     \<and> (referencing db (JNum (of_int n)) = []
          \<and> where_id (JNum (of_int n)) (creneaux_expedition db) = [] \<longrightarrow>
          creneaux_delete db pid = (Response 404 (ErrorJson ''Creneau non trouve''), db))"
proof -
  let ?k = "JNum (of_int n)"
  note valid = pg_strtoint_valid [OF assms(2)] and param = int_param_path [OF assms(2)]
  have cnt: "filter (\<lambda>c. sql_eq (col c ''creneau_id'') ?k) (colis db) = referencing db ?k"
    by (rule count_referencing) simp
  from assms(1) have d: "distinct (map (\<lambda>r. col r ''id'') (creneaux_expedition db))"
    by (simp add: wf_store_def pk_ok_def)
  have conflict: "creneaux_delete db pid
      = (Response 400 (ErrorJson
           ''Impossible de supprimer le creneau: des colis y sont associes''), db)"
    if "referencing db ?k \<noteq> []"
    using that valid param by (simp add: creneaux_delete_def cnt bad_request_def)
  have removed: "creneaux_delete db pid
            = (Response 200 (DeletedJson ''Creneau supprime'' ce),
               db\<lparr>creneaux_expedition :=
                    filter (\<lambda>r. col r ''id'' \<noteq> ?k) (creneaux_expedition db)\<rparr>)
          \<and> ce \<notin> set (creneaux_expedition (snd (creneaux_delete db pid)))
          \<and> colis (snd (creneaux_delete db pid)) = colis db"
    if "referencing db ?k = []" "ce \<in> set (creneaux_expedition db)" "col ce ''id'' = ?k" for ce
  proof -
    from where_id_unique [OF d that(2,3)] have w: "where_id ?k (creneaux_expedition db) = [ce]"
      by simp
    have "creneaux_delete db pid
            = (Response 200 (DeletedJson ''Creneau supprime'' ce),
               db\<lparr>creneaux_expedition :=
                    filter (\<lambda>r. col r ''id'' \<noteq> ?k) (creneaux_expedition db)\<rparr>)"
      using that(1) valid param w by (simp add: creneaux_delete_def cnt filter_not_id)
    with that(3) show ?thesis by simp
  qed
  have absent: "creneaux_delete db pid = (Response 404 (ErrorJson ''Creneau non trouve''), db)"
    if "referencing db ?k = []" "where_id ?k (creneaux_expedition db) = []"
    using that valid param by (simp add: creneaux_delete_def cnt not_found_def)
  from conflict removed absent show ?thesis by blast
qed

theorem creneaux_delete_guard_witness:
  "wf_store (one_slot_store 3 5 [package_row 10 (JNum 3) ''en_attente''])
   \<and> pg_strtoint ''3'' = Some 3
   \<and> creneaux_delete (one_slot_store 3 5 [package_row 10 (JNum 3) ''en_attente'']) ''3''
       = (Response 400 (ErrorJson
            ''Impossible de supprimer le creneau: des colis y sont associes''),
          one_slot_store 3 5 [package_row 10 (JNum 3) ''en_attente''])
   \<and> creneaux_delete (one_slot_store 3 5 [package_row 10 JNull ''en_attente'']) ''3''
       = (Response 200 (DeletedJson ''Creneau supprime'' (slot_row 3 5)),
          (one_slot_store 3 5 [package_row 10 JNull ''en_attente''])\<lparr>creneaux_expedition := []\<rparr>)"
proof -
  let ?used = "one_slot_store 3 5 [package_row 10 (JNum 3) ''en_attente'']"
  let ?free = "one_slot_store 3 5 [package_row 10 JNull ''en_attente'']"
  have wf: "wf_store ?used" "wf_store ?free"
    by (simp_all add: example_rows store_simps)
  have pid: "pg_strtoint ''3'' = Some 3"
    by (simp add: pg_int_simps)
  have used: "referencing ?used (JNum (of_int 3)) \<noteq> []"
    by (simp add: example_rows store_simps)
  have free: "referencing ?free (JNum (of_int 3)) = []"
    "slot_row 3 5 \<in> set (creneaux_expedition ?free)"
    "col (slot_row 3 5) ''id'' = JNum (of_int 3)"
    "filter (\<lambda>r. col r ''id'' \<noteq> JNum (of_int 3)) (creneaux_expedition ?free) = []"
    by (simp_all add: example_rows store_simps)
  from creneaux_delete_guard [OF wf(1) pid] used
  have "creneaux_delete ?used ''3''
       = (Response 400 (ErrorJson
            ''Impossible de supprimer le creneau: des colis y sont associes''), ?used)"
    by blast
  moreover from creneaux_delete_guard [OF wf(2) pid] free(1,2,3)
  have "creneaux_delete ?free ''3''
       = (Response 200 (DeletedJson ''Creneau supprime'' (slot_row 3 5)),
          ?free\<lparr>creneaux_expedition :=
                    filter (\<lambda>r. col r ''id'' \<noteq> JNum (of_int 3)) (creneaux_expedition ?free)\<rparr>)"
    by blast
  ultimately show ?thesis using wf pid free(4) by simp
qed

section \<open>Updates of a package\<close>

lemma updated_row_in_table:
  "c \<in> set rows \<Longrightarrow> col c ''id'' = k \<Longrightarrow> k \<noteq> JNull \<Longrightarrow>
   AList.updates (map fst sets) (map snd sets) c \<in> set (sql_update sets k rows)"
  by (auto simp: sql_update_def sql_eq_def)

lemma update_colis_hit:
  assumes "int_param (JStr pid) = Some k" and "k \<noteq> JNull"
    and "distinct (map (\<lambda>r. col r ''id'') (colis db))"
    and "c \<in> set (colis db)" and "col c ''id'' = k"
    and "coerce_cols [''creneau_id''] sets = Some sets'"
    and "fk_ok db sets'" and "''id'' \<notin> set (map fst sets')"
  shows "update_colis db sets pid
           = Some ([AList.updates (map fst sets') (map snd sets') c],
                   db\<lparr>colis := sql_update sets' k (colis db)\<rparr>)"
proof -
  from where_id_unique [OF assms(3,4,5,2)] have w: "where_id k (colis db) = [c]" .
  show ?thesis
    using assms(1,6,7) by (simp add: update_colis_def Let_def where_id_sql_update [OF assms(8)] w)
qed

lemma put_sets_eq:
  "[(''creneau_id'', js_get updates ''creneau_id''),
    (''nom_expediteur'', js_get updates ''nom_expediteur''),
    (''telephone_expediteur'', js_get updates ''telephone_expediteur''),
    (''adresse_expediteur'', js_get updates ''adresse_expediteur''),
    (''nom_destinataire'', js_get updates ''nom_destinataire''),
    (''telephone_destinataire'', js_get updates ''telephone_destinataire''),
    (''adresse_destinataire'', js_get updates ''adresse_destinataire''),
    (''type_colis'', js_get updates ''type_colis''),
    (''poids'', js_get updates ''poids''),
    (''description'', js_get updates ''description''),
    (''valeur_declaree'', js_get updates ''valeur_declaree''),
    (''assurance'', js_get updates ''assurance''),
    (''methode_paiement'', js_get updates ''methode_paiement''),
    (''statut'', js_or (js_get updates ''statut'') (JStr ''en_attente''))]
   = map (\<lambda>f. (f, put_value updates f)) allowedFields_colis"
  by (simp add: allowedFields_colis_def put_value_def)

lemma colis_put_eq:
  "colis_put db pid updates =
     (if id_invalid pid then (bad_request ''ID invalide'', db)
      else (case colis_put_checks updates of
              Some r \<Rightarrow> (r, db)
            | None \<Rightarrow>
                update_response ''Colis non trouve'' db
                  (update_colis db (map (\<lambda>f. (f, put_value updates f)) allowedFields_colis) pid)))"
  unfolding colis_put_def put_sets_eq ..

lemma id_not_allowed_colis: "''id'' \<notin> set (fieldsToUpdate allowedFields_colis updates)"
  and id_not_allowed_colis': "''id'' \<notin> set allowedFields_colis"
  by (simp_all add: fieldsToUpdate_def allowedFields_colis_def)

lemma fk_ok_bound:
  assumes "''creneau_id'' \<in> set fs \<longrightarrow>
             bound [''creneau_id''] g ''creneau_id'' = JNull
             \<or> where_id (bound [''creneau_id''] g ''creneau_id'') (creneaux_expedition db) \<noteq> []"
  shows "fk_ok db (map (\<lambda>f. (f, bound [''creneau_id''] g f)) fs)"
proof (cases "''creneau_id'' \<in> set fs")
  case True
  then have "map_of (map (\<lambda>f. (f, bound [''creneau_id''] g f)) fs) ''creneau_id''
               = Some (bound [''creneau_id''] g ''creneau_id'')"
    by (induction fs) auto
  with assms True show ?thesis by (auto simp: fk_ok_def)
next
  case False
  then have "map_of (map (\<lambda>f. (f, bound [''creneau_id''] g f)) fs) ''creneau_id'' = None"
    by (induction fs) auto
  then show ?thesis by (simp add: fk_ok_def)
qed

text \<open>
  What an update of an existing package does once its checks have passed, for any list
  of columns \<open>fs\<close> that leaves the id alone: the columns of \<open>fs\<close> take the bound values,
  the others keep theirs, and the row is stored. No capacity is read.
\<close>

lemma update_colis_row:
  assumes "pk_ok (colis db)" and "pg_strtoint pid = Some n"
    and "c \<in> set (colis db)" and "col c ''id'' = JNum (of_int n)"
    and "''id'' \<notin> set fs"
    and "''creneau_id'' \<in> set fs \<longrightarrow>
           (\<exists>k. int_param (g ''creneau_id'') = Some k
              \<and> (k = JNull \<or> where_id k (creneaux_expedition db) \<noteq> []))"
  shows "\<exists>r db'. update_colis db (map (\<lambda>f. (f, g f)) fs) pid = Some ([r], db')
           \<and> r \<in> set (colis db')
           \<and> reservations db' = reservations db
           \<and> creneaux_expedition db' = creneaux_expedition db
           \<and> (\<forall>f. col r f = (if f \<in> set fs then bound [''creneau_id''] g f else col c f))"
proof -
  let ?ints = "[''creneau_id'']"
  let ?sets' = "map (\<lambda>f. (f, bound ?ints g f)) fs"
  let ?k = "JNum (of_int n)"
  from assms(1) have d: "distinct (map (\<lambda>r. col r ''id'') (colis db))"
    by (simp add: pk_ok_def)
  from assms(6) have co: "coerce_cols ?ints (map (\<lambda>f. (f, g f)) fs) = Some ?sets'"
    by (intro coerce_cols_map) auto
  from assms(6) have fk: "fk_ok db ?sets'"
    by (intro fk_ok_bound) (auto simp: bound_def)
  from assms(5) have nid: "''id'' \<notin> set (map fst ?sets')"
    by (simp add: comp_def)
  note upd = update_colis_hit [OF int_param_path [OF assms(2)] _ d assms(3,4) co fk nid]
  let ?r = "AList.updates (map fst ?sets') (map snd ?sets') c"
  have "?r \<in> set (sql_update ?sets' ?k (colis db))"
    using assms(3,4) by (intro updated_row_in_table) simp_all
  moreover have "col ?r f = (if f \<in> set fs then bound ?ints g f else col c f)" for f
    by (rule col_updates_pairs)
  ultimately show ?thesis using upd by simp
qed

text \<open>
  C4. A full update and a partial update of an existing package that set the slot
  reference to an existing slot succeed once the field checks have passed, also when
  that slot already holds as many packages as its maximum capacity, or more: the
  answer is 200 with the updated row, whose slot reference is the full slot's id, and
  the row is stored.
\<close>

theorem colis_update_ignores_capacity:
  assumes "wf_store db" and "pg_strtoint pid = Some n"
    and "c \<in> set (colis db)" and "col c ''id'' = JNum (of_int n)"
    and "pg_int (js_get updates ''creneau_id'') = Some sid"
    and "ce \<in> set (creneaux_expedition db)" and "col ce ''id'' = JNum (of_int sid)"
    and "col ce ''capacite_max'' = JNum cap"
    and "cap \<le> of_nat (length (referencing db (JNum (of_int sid))))"
  shows
    "(colis_put_checks updates = None \<longrightarrow>
        (\<exists>r. fst (colis_put db pid updates) = Response 200 (RowJson r)
            \<and> col r ''creneau_id'' = JNum (of_int sid)
            \<and> r \<in> set (colis (snd (colis_put db pid updates)))))
     \<and> (colis_patch_checks updates = None \<longrightarrow>
        (\<exists>r. fst (colis_patch db pid updates) = Response 200 (RowJson r)
            \<and> col r ''creneau_id'' = JNum (of_int sid)
            \<and> r \<in> set (colis (snd (colis_patch db pid updates)))))"
proof -
  from assms(1) have pk: "pk_ok (colis db)" by (simp add: wf_store_def)
  note valid = pg_strtoint_valid [OF assms(2)]
  note ip = int_param_pg [OF assms(5)]
  from assms(6,7) have slot: "where_id (JNum (of_int sid)) (creneaux_expedition db) \<noteq> []"
    by (auto simp: where_id_def sql_eq_def filter_empty_conv intro!: bexI [of _ ce])
  have key: "''creneau_id'' \<in> set (keys updates)"
  proof (rule ccontr)
    assume "''creneau_id'' \<notin> set (keys updates)"
    then have "js_get updates ''creneau_id'' = JUndefined" by (rule js_get_absent)
    with assms(5) show False by (simp add: pg_int_def)
  qed
  have put: "\<exists>r. fst (colis_put db pid updates) = Response 200 (RowJson r)
            \<and> col r ''creneau_id'' = JNum (of_int sid)
            \<and> r \<in> set (colis (snd (colis_put db pid updates)))"
    if "colis_put_checks updates = None"
  proof -
    have "put_value updates ''creneau_id'' = js_get updates ''creneau_id''"
      by (simp add: put_value_def)
    with ip slot have "''creneau_id'' \<in> set allowedFields_colis \<longrightarrow>
           (\<exists>k. int_param (put_value updates ''creneau_id'') = Some k
              \<and> (k = JNull \<or> where_id k (creneaux_expedition db) \<noteq> []))"
      by simp
    from update_colis_row [where g = "put_value updates" and fs = allowedFields_colis,
        OF pk assms(2,3,4) id_not_allowed_colis' this]
    obtain r db' where u: "update_colis db
          (map (\<lambda>f. (f, put_value updates f)) allowedFields_colis) pid = Some ([r], db')"
      and r: "r \<in> set (colis db')"
      and c: "\<forall>f. col r f = (if f \<in> set allowedFields_colis
                then bound [''creneau_id''] (put_value updates) f else col c f)"
      by blast
    from c have "col r ''creneau_id'' = bound [''creneau_id''] (put_value updates) ''creneau_id''"
      by (simp add: allowedFields_colis_def)
    with ip have "col r ''creneau_id'' = JNum (of_int sid)"
      by (simp add: bound_def put_value_def)
    with u r that valid show ?thesis
      by (simp add: colis_put_eq update_response_def)
  qed
  have patch: "\<exists>r. fst (colis_patch db pid updates) = Response 200 (RowJson r)
            \<and> col r ''creneau_id'' = JNum (of_int sid)
            \<and> r \<in> set (colis (snd (colis_patch db pid updates)))"
    if "colis_patch_checks updates = None"
  proof -
    let ?fs = "fieldsToUpdate allowedFields_colis updates"
    from key have mem: "''creneau_id'' \<in> set ?fs"
      by (simp add: fieldsToUpdate_def allowedFields_colis_def)
    then have ne: "?fs \<noteq> []" "keys updates \<noteq> []" using key by auto
    from ip slot have "''creneau_id'' \<in> set ?fs \<longrightarrow>
           (\<exists>k. int_param (js_get updates ''creneau_id'') = Some k
              \<and> (k = JNull \<or> where_id k (creneaux_expedition db) \<noteq> []))"
      by simp
    from update_colis_row [where g = "js_get updates" and fs = ?fs,
        OF pk assms(2,3,4) id_not_allowed_colis this]
    obtain r db' where u: "update_colis db (map (\<lambda>f. (f, js_get updates f)) ?fs) pid
          = Some ([r], db')"
      and r: "r \<in> set (colis db')"
      and c: "\<forall>f. col r f = (if f \<in> set ?fs
                then bound [''creneau_id''] (js_get updates) f else col c f)"
      by blast
    from c mem have "col r ''creneau_id'' = bound [''creneau_id''] (js_get updates) ''creneau_id''"
      by simp
    with ip have "col r ''creneau_id'' = JNum (of_int sid)"
      by (simp add: bound_def)
    with u r that valid ne show ?thesis
      by (simp add: colis_patch_def update_response_def)
  qed
  from put patch show ?thesis by blast
qed

lemmas check_simps = colis_post_checks_def colis_put_checks_def colis_patch_checks_def
  creneaux_patch_checks_def reservations_patch_checks_def missing_field_def requiredFields_def
  validPackageTypes_def validPaymentMethods_def validStatus_def validTransportTypes_def
  validClasses_def js_includes_def js_get_def le_zero_def

theorem colis_update_ignores_capacity_witness:
  "wf_store (one_slot_store 3 1
      [package_row 10 (JNum 3) ''livre'', package_row 11 JNull ''en_attente''])
   \<and> pg_strtoint ''11'' = Some 11
   \<and> col (slot_row 3 1) ''capacite_max'' = JNum 1
   \<and> length (referencing (one_slot_store 3 1
        [package_row 10 (JNum 3) ''livre'', package_row 11 JNull ''en_attente'']) (JNum 3)) = 1
   \<and> colis_put_checks (package_body (JNum 3)) = None
   \<and> colis_patch_checks [(''creneau_id'', JNum 3)] = None
   \<and> status (fst (colis_put (one_slot_store 3 1
        [package_row 10 (JNum 3) ''livre'', package_row 11 JNull ''en_attente''])
        ''11'' (package_body (JNum 3)))) = 200
   \<and> status (fst (colis_patch (one_slot_store 3 1
        [package_row 10 (JNum 3) ''livre'', package_row 11 JNull ''en_attente''])
        ''11'' [(''creneau_id'', JNum 3)])) = 200"
proof -
  let ?db = "one_slot_store 3 1
      [package_row 10 (JNum 3) ''livre'', package_row 11 JNull ''en_attente'']"
  have wf: "wf_store ?db"
    by (simp add: example_rows store_simps)
  have pid: "pg_strtoint ''11'' = Some 11"
    by (simp add: pg_int_simps)
  have pkg: "package_row 11 JNull ''en_attente'' \<in> set (colis ?db)"
    "col (package_row 11 JNull ''en_attente'') ''id'' = JNum (of_int 11)"
    by (simp_all add: example_rows col_def)
  have slot: "slot_row 3 1 \<in> set (creneaux_expedition ?db)"
    "col (slot_row 3 1) ''id'' = JNum (of_int 3)"
    "col (slot_row 3 1) ''capacite_max'' = JNum 1"
    "(1::rat) \<le> of_nat (length (referencing ?db (JNum (of_int 3))))"
    by (simp_all add: example_rows store_simps)
  have n: "length (referencing ?db (JNum 3)) = 1"
    by (simp add: example_rows store_simps)
  have put_ref: "pg_int (js_get (package_body (JNum 3)) ''creneau_id'') = Some 3"
    and patch_ref: "pg_int (js_get [(''creneau_id'', JNum 3)] ''creneau_id'') = Some 3"
    by (simp_all add: example_rows js_get_def pg_int_def is_int_iff)
  have put_ok: "colis_put_checks (package_body (JNum 3)) = None"
    and patch_ok: "colis_patch_checks [(''creneau_id'', JNum 3)] = None"
    by (simp_all add: check_simps example_rows)
  from colis_update_ignores_capacity [OF wf pid pkg put_ref slot] put_ok
  have "status (fst (colis_put ?db ''11'' (package_body (JNum 3)))) = 200"
    by auto
  moreover from colis_update_ignores_capacity [OF wf pid pkg patch_ref slot] patch_ok
  have "status (fst (colis_patch ?db ''11'' [(''creneau_id'', JNum 3)])) = 200"
    by auto
  ultimately show ?thesis using wf pid slot(3) n put_ok patch_ok by simp
qed

section \<open>The tracking code\<close>

lemma capacity_check_status:
  "capacity_check db v = Some r \<Longrightarrow> status r = 400 \<or> status r = 500"
  by (auto simp: capacity_check_def bad_request_def internal_error_def
      split: if_splits option.splits list.splits)

lemma insert_colis_row:
  assumes "insert_colis db new_id ((''creneau_id'', v) # (''numero_suivi'', JStr code) # rest)
             = Some (r, db')"
  shows "col r ''numero_suivi'' = JStr code \<and> colis db' = colis db @ [r]"
proof -
  from assms obtain vals' where c: "coerce_cols [''creneau_id'']
        ((''creneau_id'', v) # (''numero_suivi'', JStr code) # rest) = Some vals'"
    and r: "r = (''id'', JNum (of_int new_id)) # vals' @ [(''statut'', JStr ''en_attente'')]"
    and db': "db' = db\<lparr>colis := colis db @ [r]\<rparr>"
    by (auto simp: insert_colis_def Let_def split: option.splits if_splits)
  from c obtain k rest' where "vals' = (''creneau_id'', k) # (''numero_suivi'', JStr code) # rest'"
    by (auto simp: coerce_cols_def any_param_JStr split: option.splits)
  with r db' show ?thesis by (simp add: col_def)
qed

lemma colis_post_created:
  assumes "colis_post db new_id now rnd body = (Response 201 (RowJson r), db')"
  shows "col r ''numero_suivi'' = JStr (numero_suivi now rnd) \<and> colis db' = colis db @ [r]"
proof (cases "colis_post_checks body")
  case (Some e)
  with assms colis_post_checks_status [OF Some] show ?thesis
    by (auto simp: colis_post_def)
next
  case None
  note checks = this
  show ?thesis
  proof (cases "capacity_check db (js_get body ''creneau_id'')")
    case (Some e)
    with assms checks capacity_check_status [OF Some] show ?thesis
      by (auto simp: colis_post_def)
  next
    case None
    with assms checks show ?thesis
      by (auto simp: colis_post_def internal_error_def split: option.splits
          dest: insert_colis_row)
  qed
qed

lemma coerce_cols_keys: "coerce_cols ints sets = Some sets' \<Longrightarrow> map fst sets' = map fst sets"
proof (induction sets arbitrary: sets')
  case Nil then show ?case by (simp add: coerce_cols_def)
next
  case (Cons a sets)
  obtain c v where a: "a = (c, v)" by (cases a)
  from Cons.prems a obtain x xs where "coerce_cols ints sets = Some xs" "sets' = x # xs" "fst x = c"
    by (auto simp: coerce_cols_def split: option.splits if_splits)
  with Cons.IH a show ?case by simp
qed

text \<open>An update that assigns neither the id nor the tracking code leaves both in every row.\<close>

lemma sql_update_keeps:
  assumes "k' \<notin> set (map fst sets)"
  shows "map (\<lambda>r. col r k') (sql_update sets k rows) = map (\<lambda>r. col r k') rows"
proof -
  have "col (AList.updates (map fst sets) (map snd sets) r) k' = col r k'" for r
    using assms by (simp add: col_def)
  then show ?thesis by (simp add: sql_update_def)
qed

lemma update_colis_keeps:
  assumes "update_colis db sets pid = Some (rows, db')" and "k' \<notin> set (map fst sets)"
  shows "map (\<lambda>r. col r k') (colis db') = map (\<lambda>r. col r k') (colis db)"
proof -
  from assms(1) obtain k sets' where c: "coerce_cols [''creneau_id''] sets = Some sets'"
    and db': "db' = db\<lparr>colis := sql_update sets' k (colis db)\<rparr>"
    by (auto simp: update_colis_def Let_def split: option.splits if_splits)
  from coerce_cols_keys [OF c] assms(2) have "k' \<notin> set (map fst sets')" by simp
  from sql_update_keeps [OF this] db' show ?thesis by simp
qed

lemma update_response_keeps:
  assumes "\<And>rows db'. res = Some (rows, db') \<Longrightarrow> f db' = f db"
  shows "f (snd (update_response msg db res)) = f db"
  using assms by (auto simp: update_response_def split: option.splits list.splits)

lemma colis_put_keeps:
  assumes "k' \<notin> set allowedFields_colis"
  shows "map (\<lambda>r. col r k') (colis (snd (colis_put db pid updates)))
           = map (\<lambda>r. col r k') (colis db)"
proof -
  from assms have "k' \<notin> set (map fst (map (\<lambda>f. (f, put_value updates f)) allowedFields_colis))"
    by (simp add: comp_def)
  from update_colis_keeps [OF _ this] show ?thesis
    by (auto simp: colis_put_eq split: option.splits
        intro: update_response_keeps [where f = "\<lambda>d. map (\<lambda>r. col r k') (colis d)"])
qed

lemma colis_patch_keeps:
  assumes "k' \<notin> set allowedFields_colis"
  shows "map (\<lambda>r. col r k') (colis (snd (colis_patch db pid updates)))
           = map (\<lambda>r. col r k') (colis db)"
proof -
  from assms have "k' \<notin> set (map fst (map (\<lambda>f. (f, js_get updates f))
      (fieldsToUpdate allowedFields_colis updates)))"
    by (auto simp: comp_def fieldsToUpdate_def)
  from update_colis_keeps [OF _ this] show ?thesis
    by (auto simp: colis_patch_def split: option.splits
        intro: update_response_keeps [where f = "\<lambda>d. map (\<lambda>r. col r k') (colis d)"])
qed

lemma digit_char_is_digit: "d < 10 \<Longrightarrow> is_digit_in 10 (digit_char d)"
proof -
  assume "d < 10"
  then have "d \<in> {0, 1, 2, 3, 4, 5, 6, 7, 8, 9}" by auto
  then show ?thesis
    by (auto simp: digit_char_def is_digit_in_def digit_val_def)
qed

lemma show_nat_digits: "list_all (is_digit_in 10) (show_nat n)"
proof (induction n rule: show_nat.induct)
  case (1 n)
  show ?case
  proof (cases "n < 10")
    case True
    then show ?thesis by (subst show_nat.simps) (simp add: digit_char_is_digit)
  next
    case False
    with "1" show ?thesis by (subst show_nat.simps) (simp add: digit_char_is_digit)
  qed
qed

lemma toUpperCase_alnum:
  "is_digit_in 36 c \<Longrightarrow> list_all (is_digit_in 36) (toUpperCase [c])"
  by (auto simp: toUpperCase_def is_digit_in_def digit_val_def Let_def
      split: option.splits if_splits)

lemma toUpperCase_alnum_list:
  "list_all (is_digit_in 36) s \<Longrightarrow> list_all (is_digit_in 36) (toUpperCase s)"
proof (induction s)
  case Nil show ?case by (simp add: toUpperCase_def)
next
  case (Cons c s)
  from Cons.prems have "list_all (is_digit_in 36) (toUpperCase [c])"
    by (intro toUpperCase_alnum) simp
  moreover have "toUpperCase (c # s) = toUpperCase [c] @ toUpperCase s"
    by (simp add: toUpperCase_def)
  ultimately show ?case using Cons by simp
qed

lemma map_pair_eq:
  "map f xs = map f ys \<Longrightarrow> map g xs = map g ys \<Longrightarrow>
   map (\<lambda>r. (f r, g r)) xs = map (\<lambda>r. (f r, g r)) ys"
proof (induction xs arbitrary: ys)
  case Nil then show ?case by simp
next
  case (Cons x xs)
  then obtain y ys' where "ys = y # ys'" by (cases ys) auto
  with Cons show ?case by auto
qed

text \<open>
  C5. A package creation that is answered 201 has stored a row whose tracking code is
  \<^verbatim>\<open>COL\<close>, then the decimal digits of the clock, then the first nine characters after
  \<^verbatim>\<open>0.\<close> of the random number in base 36, in upper case: digits, and letters and digits
  when the random string is in base 36. The code is computed from the clock and the
  random string alone, whatever the store holds. The tracking code is not among the
  columns a full or a partial update can assign, and after either update every row of
  the table has the id and the tracking code it had before.
\<close>

theorem tracking_code_generated_and_kept:
  "(\<forall>r db'. colis_post db new_id now rnd body = (Response 201 (RowJson r), db') \<longrightarrow>
       col r ''numero_suivi''
         = JStr (''COL'' @ show_nat now @ toUpperCase (take 9 (drop 2 rnd)))
       \<and> colis db' = colis db @ [r])
   \<and> list_all (is_digit_in 10) (show_nat now)
   \<and> length (toUpperCase (take 9 (drop 2 rnd))) \<le> 9
   \<and> (list_all (is_digit_in 36) (drop 2 rnd) \<longrightarrow>
       list_all (is_digit_in 36) (toUpperCase (take 9 (drop 2 rnd))))
   \<and> ''numero_suivi'' \<notin> set allowedFields_colis
   \<and> map (\<lambda>r. (col r ''id'', col r ''numero_suivi'')) (colis (snd (colis_put db pid updates)))
       = map (\<lambda>r. (col r ''id'', col r ''numero_suivi'')) (colis db)
   \<and> map (\<lambda>r. (col r ''id'', col r ''numero_suivi'')) (colis (snd (colis_patch db pid updates)))
       = map (\<lambda>r. (col r ''id'', col r ''numero_suivi'')) (colis db)"
proof -
  have created: "col r ''numero_suivi''
         = JStr (''COL'' @ show_nat now @ toUpperCase (take 9 (drop 2 rnd)))
       \<and> colis db' = colis db @ [r]"
    if "colis_post db new_id now rnd body = (Response 201 (RowJson r), db')" for r db'
    using colis_post_created [OF that] by (simp add: numero_suivi_def)
  have len: "length (toUpperCase (take 9 (drop 2 rnd))) \<le> 9"
    by (simp add: toUpperCase_def)
  have alnum: "list_all (is_digit_in 36) (toUpperCase (take 9 (drop 2 rnd)))"
    if "list_all (is_digit_in 36) (drop 2 rnd)"
    using that by (intro toUpperCase_alnum_list) (auto simp: list_all_iff dest: in_set_takeD)
  have code: "''numero_suivi'' \<notin> set allowedFields_colis"
    and ident: "''id'' \<notin> set allowedFields_colis"
    by (simp_all add: allowedFields_colis_def)
  note put = map_pair_eq [OF colis_put_keeps [OF ident] colis_put_keeps [OF code]]
  note patch = map_pair_eq [OF colis_patch_keeps [OF ident] colis_patch_keeps [OF code]]
  from created show_nat_digits len alnum code put patch show ?thesis by blast
qed

theorem tracking_code_generated_and_kept_witness:
  "numero_suivi 1 ''0.a'' = ''COL1A''
   \<and> col (package_row 10 JNull ''livre'') ''numero_suivi'' = JStr ''COL1A''
   \<and> status (fst (colis_post (one_slot_store 3 5 [package_row 10 JNull ''livre''])
        11 1 ''0.a'' (package_body JNull))) = 201
   \<and> map (\<lambda>r. col r ''numero_suivi'')
        (colis (snd (colis_post (one_slot_store 3 5 [package_row 10 JNull ''livre''])
           11 1 ''0.a'' (package_body JNull))))
       = [JStr ''COL1A'', JStr ''COL1A'']"
proof -
  let ?db = "one_slot_store 3 5 [package_row 10 JNull ''livre'']"
  let ?body = "package_body JNull"
  have code: "numero_suivi 1 ''0.a'' = ''COL1A''"
    by (simp add: numero_suivi_def show_nat.simps digit_char_def toUpperCase_def)
  have old: "col (package_row 10 JNull ''livre'') ''numero_suivi'' = JStr ''COL1A''"
    by (simp add: example_rows col_def)
  have checks: "colis_post_checks ?body = None"
    by (simp add: check_simps example_rows)
  have cap: "capacity_check ?db (js_get ?body ''creneau_id'') = None"
    by (simp add: capacity_check_def example_rows js_get_def)
  have ref: "int_param (js_get ?body ''creneau_id'') = Some JNull"
    by (simp add: example_rows js_get_def int_param_def)
  have fresh: "where_id (JNum (of_int 11)) (colis ?db) = []"
    by (simp add: example_rows store_simps)
  from colis_post_inserts [OF checks cap ref _ fresh, of 1 "''0.a''"]
  obtain r where post: "colis_post ?db 11 1 ''0.a'' ?body
      = (Response 201 (RowJson r), ?db\<lparr>colis := colis ?db @ [r]\<rparr>)"
    by auto
  from tracking_code_generated_and_kept [of ?db 11 1 "''0.a''" ?body] post
  have "col r ''numero_suivi'' = JStr (''COL'' @ show_nat 1 @ toUpperCase (take 9 (drop 2 ''0.a'')))"
    by blast
  then have "col r ''numero_suivi'' = JStr ''COL1A''"
    using code by (simp add: numero_suivi_def)
  with post code old show ?thesis
    by (simp add: example_rows col_def)
qed

section \<open>Partial updates\<close>

lemma coerce_cols_map_Some:
  "coerce_cols ints (map (\<lambda>f. (f, g f)) fs) = Some sets' \<Longrightarrow>
   sets' = map (\<lambda>f. (f, bound ints g f)) fs"
proof (induction fs arbitrary: sets')
  case Nil then show ?case by (simp add: coerce_cols_def)
next
  case (Cons f fs)
  from Cons.prems obtain xs where "coerce_cols ints (map (\<lambda>f. (f, g f)) fs) = Some xs"
    "sets' = (f, bound ints g f) # xs"
    by (auto simp: coerce_cols_def bound_def split: option.splits if_splits)
  with Cons.IH show ?case by simp
qed

text \<open>
  The first row an update returns is a row of the table with the columns \<open>fs\<close> replaced
  by the bound values and the other columns as they were.
\<close>

lemma returned_row:
  assumes "where_id k (sql_update (map (\<lambda>f. (f, h f)) fs) k rows) = r # rest"
    and "''id'' \<notin> set fs"
  shows "\<exists>c\<in>set rows. col c ''id'' = k \<and> (\<forall>f. col r f = (if f \<in> set fs then h f else col c f))
           \<and> r \<in> set (sql_update (map (\<lambda>f. (f, h f)) fs) k rows)"
proof -
  let ?sets = "map (\<lambda>f. (f, h f)) fs"
  from assms(2) have "''id'' \<notin> set (map fst ?sets)" by (simp add: comp_def)
  from where_id_sql_update [OF this] assms(1)
  obtain c cs where w: "where_id k rows = c # cs"
    and r: "r = AList.updates (map fst ?sets) (map snd ?sets) c"
    by (cases "where_id k rows") auto
  from w have c: "c \<in> set rows \<and> col c ''id'' = k"
    by (intro where_id_mem) simp
  moreover have "col r f = (if f \<in> set fs then h f else col c f)" for f
    unfolding r by (rule col_updates_pairs)
  moreover from assms(1) have "r \<in> set (where_id k (sql_update ?sets k rows))" by simp
  then have "r \<in> set (sql_update ?sets k rows)" by (simp add: where_id_def)
  ultimately show ?thesis by blast
qed

text \<open>The shape of a successful \<^verbatim>\<open>UPDATE\<close> on each table.\<close>

lemma update_colis_Some:
  assumes "update_colis db (map (\<lambda>f. (f, g f)) fs) pid = Some (rows, db')"
  shows "\<exists>k. rows = where_id k (sql_update (map (\<lambda>f. (f, bound [''creneau_id''] g f)) fs) k (colis db))
           \<and> db' = db\<lparr>colis := sql_update (map (\<lambda>f. (f, bound [''creneau_id''] g f)) fs) k (colis db)\<rparr>"
  using assms
  by (auto simp: update_colis_def Let_def split: option.splits if_splits
      dest!: coerce_cols_map_Some)

lemma update_creneaux_Some:
  assumes "update_creneaux db (map (\<lambda>f. (f, g f)) fs) pid = Some (rows, db')"
  shows "\<exists>k. rows = where_id k (sql_update (map (\<lambda>f. (f, bound [''capacite_max''] g f)) fs) k
                        (creneaux_expedition db))
           \<and> db' = db\<lparr>creneaux_expedition :=
                sql_update (map (\<lambda>f. (f, bound [''capacite_max''] g f)) fs) k
                  (creneaux_expedition db)\<rparr>"
  using assms
  by (auto simp: update_creneaux_def Let_def split: option.splits if_splits
      dest!: coerce_cols_map_Some)

lemma update_reservations_Some:
  assumes "update_reservations db (map (\<lambda>f. (f, g f)) fs) pid = Some (rows, db')"
  shows "\<exists>k. rows = where_id k (sql_update (map (\<lambda>f. (f, bound [] g f)) fs) k (reservations db))
           \<and> db' = db\<lparr>reservations :=
                sql_update (map (\<lambda>f. (f, bound [] g f)) fs) k (reservations db)\<rparr>"
  using assms
  by (auto simp: update_reservations_def Let_def split: option.splits if_splits
      dest!: coerce_cols_map_Some)

lemma sql_update_keeps_map:
  assumes "k' \<notin> set fs"
  shows "map (\<lambda>r. col r k') (sql_update (map (\<lambda>f. (f, h f)) fs) k rows) = map (\<lambda>r. col r k') rows"
  using assms by (intro sql_update_keeps) (simp add: comp_def)

text \<open>The three partial updates, reduced to their update statement.\<close>

lemma colis_patch_cases:
  "(status (fst (colis_patch db pid updates)) = 400 \<and> snd (colis_patch db pid updates) = db)
   \<or> (fieldsToUpdate allowedFields_colis updates \<noteq> []
       \<and> colis_patch db pid updates
          = update_response ''Colis non trouve'' db
              (update_colis db (map (\<lambda>f. (f, js_get updates f))
                 (fieldsToUpdate allowedFields_colis updates)) pid))"
  by (auto simp: colis_patch_def bad_request_def colis_patch_checks_def split: option.splits)

lemma creneaux_patch_cases:
  "(status (fst (creneaux_patch db pid updates)) = 400 \<and> snd (creneaux_patch db pid updates) = db)
   \<or> (fieldsToUpdate allowedFields_creneaux updates \<noteq> []
       \<and> creneaux_patch db pid updates
          = update_response ''Creneau non trouve'' db
              (update_creneaux db (map (\<lambda>f. (f, js_get updates f))
                 (fieldsToUpdate allowedFields_creneaux updates)) pid))"
  by (auto simp: creneaux_patch_def bad_request_def creneaux_patch_checks_def split: option.splits)

lemma reservations_patch_cases:
  "(status (fst (reservations_patch db pid updates)) = 400
      \<and> snd (reservations_patch db pid updates) = db)
   \<or> (fieldsToUpdate allowedFields_reservations updates \<noteq> []
       \<and> reservations_patch db pid updates
          = update_response ''Reservation non trouvee'' db
              (update_reservations db (map (\<lambda>f. (f, js_get updates f))
                 (fieldsToUpdate allowedFields_reservations updates)) pid))"
  by (auto simp: reservations_patch_def bad_request_def reservations_patch_checks_def
      split: option.splits)

lemma update_response_200:
  assumes "fst (update_response msg db res) = Response 200 (RowJson r)"
  shows "\<exists>rest db'. res = Some (r # rest, db') \<and> snd (update_response msg db res) = db'"
  using assms
  by (auto simp: update_response_def internal_error_def not_found_def
      split: option.splits list.splits)

lemma id_not_field:
  "''id'' \<notin> set (fieldsToUpdate allowedFields_colis updates)"
  "''id'' \<notin> set (fieldsToUpdate allowedFields_creneaux updates)"
  "''id'' \<notin> set (fieldsToUpdate allowedFields_reservations updates)"
  by (simp_all add: fieldsToUpdate_def allowedFields_colis_def allowedFields_creneaux_def
      allowedFields_reservations_def)

text \<open>
  What the answer to an update statement guarantees, for a table \<open>T\<close> of the store, the
  updated columns \<open>fs\<close> and the values \<open>h\<close> they receive.
\<close>

lemma update_response_fields:
  assumes shape: "\<And>rows db'. res = Some (rows, db') \<Longrightarrow>
            \<exists>k. rows = where_id k (sql_update (map (\<lambda>f. (f, h f)) fs) k (T db))
               \<and> T db' = sql_update (map (\<lambda>f. (f, h f)) fs) k (T db)"
    and nid: "''id'' \<notin> set fs"
  shows "(\<forall>f. f \<notin> set fs \<longrightarrow>
            map (\<lambda>r. col r f) (T (snd (update_response msg db res))) = map (\<lambda>r. col r f) (T db))
         \<and> (\<forall>r. fst (update_response msg db res) = Response 200 (RowJson r) \<longrightarrow>
              (\<exists>c\<in>set (T db). \<forall>f. col r f = (if f \<in> set fs then h f else col c f))
              \<and> r \<in> set (T (snd (update_response msg db res))))"
proof -
  have keep: "map (\<lambda>r. col r f) (T (snd (update_response msg db res))) = map (\<lambda>r. col r f) (T db)"
    if f: "f \<notin> set fs" for f
  proof (rule update_response_keeps [where f = "\<lambda>d. map (\<lambda>r. col r f) (T d)"])
    fix rows db' assume "res = Some (rows, db')"
    from shape [OF this] sql_update_keeps_map [OF f]
    show "map (\<lambda>r. col r f) (T db') = map (\<lambda>r. col r f) (T db)" by auto
  qed
  have row: "(\<exists>c\<in>set (T db). \<forall>f. col r f = (if f \<in> set fs then h f else col c f))
        \<and> r \<in> set (T (snd (update_response msg db res)))"
    if "fst (update_response msg db res) = Response 200 (RowJson r)" for r
  proof -
    from update_response_200 [OF that] obtain rest db'
      where res: "res = Some (r # rest, db')" and snd: "snd (update_response msg db res) = db'"
      by blast
    from shape [OF res] obtain k
      where w: "where_id k (sql_update (map (\<lambda>f. (f, h f)) fs) k (T db)) = r # rest"
        and T: "T db' = sql_update (map (\<lambda>f. (f, h f)) fs) k (T db)"
      by auto
    from returned_row [OF w nid] T snd show ?thesis by auto
  qed
  from keep row show ?thesis by blast
qed

lemma rejected_fields:
  assumes "status (fst x) = 400" and "snd x = db"
  shows "(P \<longrightarrow> status (fst x) = 400 \<and> snd x = db)
         \<and> (\<forall>f. Q f \<longrightarrow> map (\<lambda>r. col r f) (T (snd x)) = map (\<lambda>r. col r f) (T db))
         \<and> (\<forall>r. fst x = Response 200 (RowJson r) \<longrightarrow> R r)"
  using assms by auto

lemma reservations_patch_fields:
  "(fieldsToUpdate allowedFields_reservations updates = [] \<longrightarrow>
      status (fst (reservations_patch db pid updates)) = 400
      \<and> snd (reservations_patch db pid updates) = db)
    \<and> (\<forall>f. f \<notin> set (fieldsToUpdate allowedFields_reservations updates) \<longrightarrow>
        map (\<lambda>r. col r f) (reservations (snd (reservations_patch db pid updates)))
          = map (\<lambda>r. col r f) (reservations db))
    \<and> (\<forall>r. fst (reservations_patch db pid updates) = Response 200 (RowJson r) \<longrightarrow>
        (\<exists>c\<in>set (reservations db).
           \<forall>f. col r f = (if f \<in> set (fieldsToUpdate allowedFields_reservations updates)
                           then bound [] (js_get updates) f else col c f))
        \<and> r \<in> set (reservations (snd (reservations_patch db pid updates))))"
  using reservations_patch_cases [of db pid updates]
proof (elim disjE conjE)
  assume "status (fst (reservations_patch db pid updates)) = 400"
    "snd (reservations_patch db pid updates) = db"
  then show ?thesis by (rule rejected_fields)
next
  let ?fs = "fieldsToUpdate allowedFields_reservations updates"
  let ?res = "update_reservations db (map (\<lambda>f. (f, js_get updates f)) ?fs) pid"
  assume ne: "?fs \<noteq> []"
    and eq: "reservations_patch db pid updates
        = update_response ''Reservation non trouvee'' db ?res"
  have "\<exists>k. rows = where_id k (sql_update (map (\<lambda>f. (f, bound [] (js_get updates) f)) ?fs) k
                       (reservations db))
          \<and> reservations db' = sql_update (map (\<lambda>f. (f, bound [] (js_get updates) f)) ?fs) k
                       (reservations db)"
    if "?res = Some (rows, db')" for rows db'
    using update_reservations_Some [OF that] by auto
  from update_response_fields [where T = reservations, OF this id_not_field(3)] ne
  show ?thesis unfolding eq by simp
qed

lemma colis_patch_fields:
  "(fieldsToUpdate allowedFields_colis updates = [] \<longrightarrow>
      status (fst (colis_patch db pid updates)) = 400
      \<and> snd (colis_patch db pid updates) = db)
    \<and> (\<forall>f. f \<notin> set (fieldsToUpdate allowedFields_colis updates) \<longrightarrow>
        map (\<lambda>r. col r f) (colis (snd (colis_patch db pid updates)))
          = map (\<lambda>r. col r f) (colis db))
    \<and> (\<forall>r. fst (colis_patch db pid updates) = Response 200 (RowJson r) \<longrightarrow>
        (\<exists>c\<in>set (colis db).
           \<forall>f. col r f = (if f \<in> set (fieldsToUpdate allowedFields_colis updates)
                           then bound [''creneau_id''] (js_get updates) f else col c f))
        \<and> r \<in> set (colis (snd (colis_patch db pid updates))))"
  using colis_patch_cases [of db pid updates]
proof (elim disjE conjE)
  assume "status (fst (colis_patch db pid updates)) = 400"
    "snd (colis_patch db pid updates) = db"
  then show ?thesis by (rule rejected_fields)
next
  let ?fs = "fieldsToUpdate allowedFields_colis updates"
  let ?res = "update_colis db (map (\<lambda>f. (f, js_get updates f)) ?fs) pid"
  assume ne: "?fs \<noteq> []"
    and eq: "colis_patch db pid updates = update_response ''Colis non trouve'' db ?res"
  have "\<exists>k. rows = where_id k (sql_update
                 (map (\<lambda>f. (f, bound [''creneau_id''] (js_get updates) f)) ?fs) k (colis db))
          \<and> colis db' = sql_update
                 (map (\<lambda>f. (f, bound [''creneau_id''] (js_get updates) f)) ?fs) k (colis db)"
    if "?res = Some (rows, db')" for rows db'
    using update_colis_Some [OF that] by auto
  from update_response_fields [where T = colis, OF this id_not_field(1)] ne
  show ?thesis unfolding eq by simp
qed

lemma creneaux_patch_fields:
  "(fieldsToUpdate allowedFields_creneaux updates = [] \<longrightarrow>
      status (fst (creneaux_patch db pid updates)) = 400
      \<and> snd (creneaux_patch db pid updates) = db)
    \<and> (\<forall>f. f \<notin> set (fieldsToUpdate allowedFields_creneaux updates) \<longrightarrow>
        map (\<lambda>r. col r f) (creneaux_expedition (snd (creneaux_patch db pid updates)))
          = map (\<lambda>r. col r f) (creneaux_expedition db))
    \<and> (\<forall>r. fst (creneaux_patch db pid updates) = Response 200 (RowJson r) \<longrightarrow>
        (\<exists>c\<in>set (creneaux_expedition db).
           \<forall>f. col r f = (if f \<in> set (fieldsToUpdate allowedFields_creneaux updates)
                           then bound [''capacite_max''] (js_get updates) f else col c f))
        \<and> r \<in> set (creneaux_expedition (snd (creneaux_patch db pid updates))))"
  using creneaux_patch_cases [of db pid updates]
proof (elim disjE conjE)
  assume "status (fst (creneaux_patch db pid updates)) = 400"
    "snd (creneaux_patch db pid updates) = db"
  then show ?thesis by (rule rejected_fields)
next
  let ?fs = "fieldsToUpdate allowedFields_creneaux updates"
  let ?res = "update_creneaux db (map (\<lambda>f. (f, js_get updates f)) ?fs) pid"
  assume ne: "?fs \<noteq> []"
    and eq: "creneaux_patch db pid updates = update_response ''Creneau non trouve'' db ?res"
  have "\<exists>k. rows = where_id k (sql_update
                 (map (\<lambda>f. (f, bound [''capacite_max''] (js_get updates) f)) ?fs) k
                 (creneaux_expedition db))
          \<and> creneaux_expedition db' = sql_update
                 (map (\<lambda>f. (f, bound [''capacite_max''] (js_get updates) f)) ?fs) k
                 (creneaux_expedition db)"
    if "?res = Some (rows, db')" for rows db'
    using update_creneaux_Some [OF that] by auto
  from update_response_fields [where T = creneaux_expedition, OF this id_not_field(2)] ne
  show ?thesis unfolding eq by simp
qed

text \<open>
  C6. For each of the three partial updates: a payload that is empty or holds no
  recognized field is answered 400 and the store is unchanged; whatever the request,
  every column that is not a supplied recognized field keeps its value in every row of
  the table; and when the answer is 200 with a row, that row is a row of the table with
  exactly the supplied recognized fields replaced by the values bound from the payload,
  and it is stored.
\<close>

theorem patch_recognized_fields_only:
  "(fieldsToUpdate allowedFields_reservations updates = [] \<longrightarrow>
      status (fst (reservations_patch db pid updates)) = 400
      \<and> snd (reservations_patch db pid updates) = db)
   \<and> (fieldsToUpdate allowedFields_colis updates = [] \<longrightarrow>
      status (fst (colis_patch db pid updates)) = 400
      \<and> snd (colis_patch db pid updates) = db)
   \<and> (fieldsToUpdate allowedFields_creneaux updates = [] \<longrightarrow>
      status (fst (creneaux_patch db pid updates)) = 400
      \<and> snd (creneaux_patch db pid updates) = db)
   \<and> (\<forall>f. f \<notin> set (fieldsToUpdate allowedFields_reservations updates) \<longrightarrow>
        map (\<lambda>r. col r f) (reservations (snd (reservations_patch db pid updates)))
          = map (\<lambda>r. col r f) (reservations db))
   \<and> (\<forall>f. f \<notin> set (fieldsToUpdate allowedFields_colis updates) \<longrightarrow>
        map (\<lambda>r. col r f) (colis (snd (colis_patch db pid updates)))
          = map (\<lambda>r. col r f) (colis db))
   \<and> (\<forall>f. f \<notin> set (fieldsToUpdate allowedFields_creneaux updates) \<longrightarrow>
        map (\<lambda>r. col r f) (creneaux_expedition (snd (creneaux_patch db pid updates)))
          = map (\<lambda>r. col r f) (creneaux_expedition db))
   \<and> (\<forall>r. fst (reservations_patch db pid updates) = Response 200 (RowJson r) \<longrightarrow>
        (\<exists>c\<in>set (reservations db).
           \<forall>f. col r f = (if f \<in> set (fieldsToUpdate allowedFields_reservations updates)
                           then bound [] (js_get updates) f else col c f))
        \<and> r \<in> set (reservations (snd (reservations_patch db pid updates))))
   \<and> (\<forall>r. fst (colis_patch db pid updates) = Response 200 (RowJson r) \<longrightarrow>
        (\<exists>c\<in>set (colis db).
           \<forall>f. col r f = (if f \<in> set (fieldsToUpdate allowedFields_colis updates)
                           then bound [''creneau_id''] (js_get updates) f else col c f))
        \<and> r \<in> set (colis (snd (colis_patch db pid updates))))
   \<and> (\<forall>r. fst (creneaux_patch db pid updates) = Response 200 (RowJson r) \<longrightarrow>
        (\<exists>c\<in>set (creneaux_expedition db).
           \<forall>f. col r f = (if f \<in> set (fieldsToUpdate allowedFields_creneaux updates)
                           then bound [''capacite_max''] (js_get updates) f else col c f))
        \<and> r \<in> set (creneaux_expedition (snd (creneaux_patch db pid updates))))"
  using reservations_patch_fields [of updates db pid] colis_patch_fields [of updates db pid]
    creneaux_patch_fields [of updates db pid]
  by blast

lemmas patch_simps = colis_patch_def creneaux_patch_def reservations_patch_def keys_def
  fieldsToUpdate_def allowedFields_colis_def allowedFields_creneaux_def
  allowedFields_reservations_def update_colis_def update_creneaux_def update_reservations_def
  update_response_def coerce_cols_def sql_update_def fk_ok_def any_param_def bad_request_def
  not_found_def internal_error_def

theorem patch_recognized_fields_only_witness:
  "fieldsToUpdate allowedFields_reservations [(''foo'', JNum 1)] = []
   \<and> status (fst (reservations_patch
        (one_slot_store 3 5 [package_row 10 JNull ''en_attente'']) ''1'' [(''foo'', JNum 1)])) = 400
   \<and> snd (reservations_patch
        (one_slot_store 3 5 [package_row 10 JNull ''en_attente'']) ''1'' [(''foo'', JNum 1)])
       = one_slot_store 3 5 [package_row 10 JNull ''en_attente'']
   \<and> status (fst (colis_patch
        (one_slot_store 3 5 [package_row 10 JNull ''en_attente'']) ''10'' [])) = 400
   \<and> fst (colis_patch (one_slot_store 3 5 [package_row 10 JNull ''en_attente''])
        ''10'' [(''poids'', JNum 7), (''foo'', JNum 1)])
       = Response 200 (RowJson
           (AList.update ''poids'' (JNum 7) (package_row 10 JNull ''en_attente'')))
   \<and> AList.update ''poids'' (JNum 7) (package_row 10 JNull ''en_attente'')
       \<in> set (colis (snd (colis_patch (one_slot_store 3 5 [package_row 10 JNull ''en_attente''])
            ''10'' [(''poids'', JNum 7), (''foo'', JNum 1)])))"
proof -
  let ?db = "one_slot_store 3 5 [package_row 10 JNull ''en_attente'']"
  let ?r = "AList.update ''poids'' (JNum 7) (package_row 10 JNull ''en_attente'')"
  have none: "fieldsToUpdate allowedFields_reservations [(''foo'', JNum 1)] = []"
    "fieldsToUpdate allowedFields_colis [] = []"
    by (simp_all add: patch_simps)
  have ok: "fst (colis_patch ?db ''10'' [(''poids'', JNum 7), (''foo'', JNum 1)])
      = Response 200 (RowJson ?r)"
    by (simp add: patch_simps parseInt_simps pg_int_simps check_simps example_rows store_simps)
  from patch_recognized_fields_only [of "[(''foo'', JNum 1)]" ?db "''1''"] none(1)
  have "status (fst (reservations_patch ?db ''1'' [(''foo'', JNum 1)])) = 400
        \<and> snd (reservations_patch ?db ''1'' [(''foo'', JNum 1)]) = ?db"
    by blast
  moreover from patch_recognized_fields_only [of "[]" ?db "''10''"] none(2)
  have "status (fst (colis_patch ?db ''10'' [])) = 400"
    by blast
  moreover from patch_recognized_fields_only [of "[(''poids'', JNum 7), (''foo'', JNum 1)]" ?db "''10''"] ok
  have "?r \<in> set (colis (snd (colis_patch ?db ''10'' [(''poids'', JNum 7), (''foo'', JNum 1)])))"
    by blast
  ultimately show ?thesis using none(1) ok by simp
qed

section \<open>Pagination\<close>





section \<open>Deleting many reservations\<close>

lemma those_int_param:
  "those (map pg_int vs) = Some ns \<Longrightarrow>
   those (map int_param vs) = Some (map (\<lambda>n. JNum (of_int n)) ns)"
proof (induction vs arbitrary: ns)
  case Nil then show ?case by simp
next
  case (Cons v vs)
  from Cons.prems obtain n ns' where "pg_int v = Some n" "those (map pg_int vs) = Some ns'"
    "ns = n # ns'"
    by (auto split: option.splits)
  with Cons.IH int_param_pg show ?case by simp
qed

lemma list_ex_ids:
  "list_ex (sql_eq v) (map (\<lambda>n. JNum (of_int n)) ns) \<longleftrightarrow> (\<exists>n\<in>set ns. v = JNum (of_int n))"
  by (auto simp: list_ex_iff sql_eq_def)

text \<open>
  C8, as amended. A delete-many request whose \<^verbatim>\<open>ids\<close> is an array keeps the entries that
  \<^verbatim>\<open>parseInt\<close> reads as a number and drops the others. If none is kept (the empty array
  included), or \<^verbatim>\<open>ids\<close> is not an array, the answer is 400 and the store is unchanged.
  If some are kept and each of them is an integer for the store, one statement deletes
  the rows whose id is among them, the answer is 200 with the deleted rows and their
  count in the message, and the other rows stay.
\<close>

theorem reservations_delete_many_valid_ids:
  "(\<forall>v. v \<in> set (validIds ids) \<longleftrightarrow> v \<in> set ids \<and> \<not> isNaN_parseInt v)
   \<and> (js_get body ''ids'' = JArr ids \<and> validIds ids = [] \<longrightarrow>
        status (fst (reservations_delete_many db body)) = 400
        \<and> snd (reservations_delete_many db body) = db)
   \<and> ((\<forall>xs. js_get body ''ids'' \<noteq> JArr xs) \<longrightarrow>
        status (fst (reservations_delete_many db body)) = 400
        \<and> snd (reservations_delete_many db body) = db)
   \<and> (\<forall>ns. js_get body ''ids'' = JArr ids \<and> validIds ids \<noteq> []
          \<and> those (map pg_int (validIds ids)) = Some ns \<longrightarrow>
        reservations_delete_many db body
          = (Response 200 (DeletedManyJson
               (show_nat (length (filter (\<lambda>r. \<exists>n\<in>set ns. col r ''id'' = JNum (of_int n))
                                    (reservations db)))
                  @ '' reservation(s) supprimee(s)'')
               (filter (\<lambda>r. \<exists>n\<in>set ns. col r ''id'' = JNum (of_int n)) (reservations db))),
             db\<lparr>reservations :=
                  filter (\<lambda>r. \<not> (\<exists>n\<in>set ns. col r ''id'' = JNum (of_int n)))
                    (reservations db)\<rparr>))"
proof -
  have kept: "v \<in> set (validIds ids) \<longleftrightarrow> v \<in> set ids \<and> \<not> isNaN_parseInt v" for v
    by (auto simp: validIds_def)
  have none: "status (fst (reservations_delete_many db body)) = 400
        \<and> snd (reservations_delete_many db body) = db"
    if "js_get body ''ids'' = JArr ids" "validIds ids = []"
    using that by (simp add: reservations_delete_many_def bad_request_def)
  have other: "status (fst (reservations_delete_many db body)) = 400
        \<and> snd (reservations_delete_many db body) = db"
    if "\<forall>xs. js_get body ''ids'' \<noteq> JArr xs"
    using that
    by (cases "js_get body ''ids''") (simp_all add: reservations_delete_many_def bad_request_def)
  have some: "reservations_delete_many db body
          = (Response 200 (DeletedManyJson
               (show_nat (length (filter (\<lambda>r. \<exists>n\<in>set ns. col r ''id'' = JNum (of_int n))
                                    (reservations db)))
                  @ '' reservation(s) supprimee(s)'')
               (filter (\<lambda>r. \<exists>n\<in>set ns. col r ''id'' = JNum (of_int n)) (reservations db))),
             db\<lparr>reservations :=
                  filter (\<lambda>r. \<not> (\<exists>n\<in>set ns. col r ''id'' = JNum (of_int n)))
                    (reservations db)\<rparr>)"
    if "js_get body ''ids'' = JArr ids" "validIds ids \<noteq> []"
      "those (map pg_int (validIds ids)) = Some ns" for ns
  proof -
    from that(2) have "ids \<noteq> []" by (auto simp: validIds_def)
    with that(1,2) those_int_param [OF that(3)] show ?thesis
      by (simp add: reservations_delete_many_def delete_in_def list_ex_ids)
  qed
  from kept none other some show ?thesis by blast
qed

theorem reservations_delete_many_valid_ids_witness:
  "validIds [JNum 2, JStr ''abc'', JNull] = [JNum 2]
   \<and> those (map pg_int [JNum 2]) = Some [2]
   \<and> reservations_delete_many (one_slot_store 3 5 [])
        [(''ids'', JArr [JNum 2, JStr ''abc'', JNull])]
       = (Response 200 (DeletedManyJson ''1 reservation(s) supprimee(s)'' [reservation_row 2]),
          (one_slot_store 3 5 [])\<lparr>reservations := [reservation_row 1]\<rparr>)
   \<and> status (fst (reservations_delete_many (one_slot_store 3 5 [])
        [(''ids'', JArr [JStr ''abc'', JNull])])) = 400"
proof -
  let ?db = "one_slot_store 3 5 []"
  let ?body = "[(''ids'', JArr [JNum 2, JStr ''abc'', JNull])]"
  have v: "validIds [JNum 2, JStr ''abc'', JNull] = [JNum 2]"
    "validIds [JStr ''abc'', JNull] = []"
    by (simp_all add: validIds_def parseInt_simps)
  have ns: "those (map pg_int [JNum 2]) = Some [2]"
    by (simp add: pg_int_def is_int_iff)
  have ids: "js_get ?body ''ids'' = JArr [JNum 2, JStr ''abc'', JNull]"
    "js_get [(''ids'', JArr [JStr ''abc'', JNull])] ''ids'' = JArr [JStr ''abc'', JNull]"
    by (simp_all add: js_get_def)
  have del: "filter (\<lambda>r. \<exists>n\<in>set [2]. col r ''id'' = JNum (of_int n)) (reservations ?db)
      = [reservation_row 2]"
    "filter (\<lambda>r. \<not> (\<exists>n\<in>set [2]. col r ''id'' = JNum (of_int n))) (reservations ?db)
      = [reservation_row 1]"
    by (simp_all add: example_rows col_def)
  have one: "show_nat (Suc 0) = ''1''"
    by (simp add: show_nat.simps digit_char_def)
  from reservations_delete_many_valid_ids [of "[JNum 2, JStr ''abc'', JNull]" ?body ?db] ids(1) v(1) ns
  have "reservations_delete_many ?db ?body
          = (Response 200 (DeletedManyJson
               (show_nat (length (filter (\<lambda>r. \<exists>n\<in>set [2]. col r ''id'' = JNum (of_int n))
                                    (reservations ?db)))
                  @ '' reservation(s) supprimee(s)'')
               (filter (\<lambda>r. \<exists>n\<in>set [2]. col r ''id'' = JNum (of_int n)) (reservations ?db))),
             ?db\<lparr>reservations :=
                  filter (\<lambda>r. \<not> (\<exists>n\<in>set [2]. col r ''id'' = JNum (of_int n)))
                    (reservations ?db)\<rparr>)"
    by simp
  then have a: "reservations_delete_many ?db ?body
       = (Response 200 (DeletedManyJson ''1 reservation(s) supprimee(s)'' [reservation_row 2]),
          ?db\<lparr>reservations := [reservation_row 1]\<rparr>)"
    unfolding del by (simp add: one)
  from reservations_delete_many_valid_ids
    [of "[JStr ''abc'', JNull]" "[(''ids'', JArr [JStr ''abc'', JNull])]" ?db] ids(2) v(2)
  have b: "status (fst (reservations_delete_many ?db [(''ids'', JArr [JStr ''abc'', JNull])])) = 400"
    by blast
  from v(1) ns a b show ?thesis by simp
qed

text \<open>
  C8 as stated fails on entries that are not integers but start like one: \<^verbatim>\<open>parseInt\<close>
  reads \<^verbatim>\<open>"12abc"\<close> as 12 and the number 1.5 as 1, so both are kept; the statement then
  fails on them and the request is answered 500 with nothing deleted, the row of the
  valid id 1 neither.
\<close>

theorem reservations_delete_many_counterexample:
  "validIds [JNum 1, JStr ''12abc'', JNum (3 / 2)] = [JNum 1, JStr ''12abc'', JNum (3 / 2)]
   \<and> pg_int (JStr ''12abc'') = None \<and> pg_int (JNum (3 / 2)) = None
   \<and> status (fst (reservations_delete_many (one_slot_store 3 5 [])
        [(''ids'', JArr [JNum 1, JStr ''12abc'', JNum (3 / 2)])])) = 500
   \<and> snd (reservations_delete_many (one_slot_store 3 5 [])
        [(''ids'', JArr [JNum 1, JStr ''12abc'', JNum (3 / 2)])]) = one_slot_store 3 5 []"
  by (simp add: validIds_def parseInt_simps pg_int_simps is_int_iff js_get_def
      reservations_delete_many_def delete_in_def internal_error_def)

section \<open>Partial updates that set a positive field to 0\<close>











section \<open>The status after a full update of a package\<close>

text \<open>
  The row that an update of an existing package leaves under the package's id is the
  row it returns: the columns of \<open>fs\<close> take the bound values, the others keep theirs.
\<close>

lemma update_colis_stored:
  assumes "pk_ok (colis db)" and "pg_strtoint pid = Some n"
    and "c \<in> set (colis db)" and "col c ''id'' = JNum (of_int n)"
    and "''id'' \<notin> set fs"
    and "''creneau_id'' \<in> set fs \<longrightarrow>
           (\<exists>k. int_param (g ''creneau_id'') = Some k
              \<and> (k = JNull \<or> where_id k (creneaux_expedition db) \<noteq> []))"
  shows "\<exists>r db'. update_colis db (map (\<lambda>f. (f, g f)) fs) pid = Some ([r], db')
           \<and> where_id (JNum (of_int n)) (colis db') = [r]
           \<and> (\<forall>f. col r f = (if f \<in> set fs then bound [''creneau_id''] g f else col c f))"
proof -
  let ?ints = "[''creneau_id'']"
  let ?sets' = "map (\<lambda>f. (f, bound ?ints g f)) fs"
  let ?k = "JNum (of_int n)"
  from assms(1) have d: "distinct (map (\<lambda>r. col r ''id'') (colis db))"
    by (simp add: pk_ok_def)
  from assms(6) have co: "coerce_cols ?ints (map (\<lambda>f. (f, g f)) fs) = Some ?sets'"
    by (intro coerce_cols_map) auto
  from assms(6) have fk: "fk_ok db ?sets'"
    by (intro fk_ok_bound) (auto simp: bound_def)
  from assms(5) have nid: "''id'' \<notin> set (map fst ?sets')"
    by (simp add: comp_def)
  note upd = update_colis_hit [OF int_param_path [OF assms(2)] _ d assms(3,4) co fk nid]
  let ?r = "AList.updates (map fst ?sets') (map snd ?sets') c"
  have w: "where_id ?k (colis db) = [c]"
    using d assms(3,4) by (intro where_id_unique) simp_all
  have "where_id ?k (sql_update ?sets' ?k (colis db)) = [?r]"
    unfolding where_id_sql_update [OF nid] w by simp
  moreover have "col ?r f = (if f \<in> set fs then bound ?ints g f else col c f)" for f
    by (rule col_updates_pairs)
  ultimately show ?thesis using upd by simp
qed

text \<open>
  C10. A full update of an existing package whose body has no status field, once its
  checks have passed (and its slot reference is null or an existing slot), is answered
  200 with a row whose status is \<^verbatim>\<open>en_attente\<close>, and that row is the one stored under the
  package's id afterwards, whatever status the package had before.
\<close>

theorem colis_put_resets_status:
  assumes "pk_ok (colis db)" and "pg_strtoint pid = Some n"
    and "c \<in> set (colis db)" and "col c ''id'' = JNum (of_int n)"
    and "''statut'' \<notin> set (keys updates)"
    and "colis_put_checks updates = None"
    and "\<exists>k. int_param (js_get updates ''creneau_id'') = Some k
           \<and> (k = JNull \<or> where_id k (creneaux_expedition db) \<noteq> [])"
  shows "\<exists>r. fst (colis_put db pid updates) = Response 200 (RowJson r)
           \<and> col r ''statut'' = JStr ''en_attente''
           \<and> where_id (JNum (of_int n)) (colis (snd (colis_put db pid updates))) = [r]"
proof -
  note valid = pg_strtoint_valid [OF assms(2)]
  from assms(5) have absent: "js_get updates ''statut'' = JUndefined"
    by (rule js_get_absent)
  have "put_value updates ''creneau_id'' = js_get updates ''creneau_id''"
    by (simp add: put_value_def)
  with assms(7) have "''creneau_id'' \<in> set allowedFields_colis \<longrightarrow>
         (\<exists>k. int_param (put_value updates ''creneau_id'') = Some k
            \<and> (k = JNull \<or> where_id k (creneaux_expedition db) \<noteq> []))"
    by simp
  from update_colis_stored [where g = "put_value updates" and fs = allowedFields_colis,
      OF assms(1,2,3,4) id_not_allowed_colis' this]
  obtain r db' where u: "update_colis db
        (map (\<lambda>f. (f, put_value updates f)) allowedFields_colis) pid = Some ([r], db')"
    and w: "where_id (JNum (of_int n)) (colis db') = [r]"
    and c: "\<forall>f. col r f = (if f \<in> set allowedFields_colis
              then bound [''creneau_id''] (put_value updates) f else col c f)"
    by blast
  from c have "col r ''statut'' = bound [''creneau_id''] (put_value updates) ''statut''"
    by (simp add: allowedFields_colis_def)
  with absent have "col r ''statut'' = JStr ''en_attente''"
    by (simp add: bound_def put_value_def js_or_def any_param_JStr)
  with u w assms(6) valid show ?thesis
    by (simp add: colis_put_eq update_response_def)
qed

theorem colis_put_resets_status_witness:
  "pk_ok (colis (one_slot_store 3 5 [package_row 11 JNull ''livre'']))
   \<and> pg_strtoint ''11'' = Some 11
   \<and> ''statut'' \<notin> set (keys (package_body JNull))
   \<and> colis_put_checks (package_body JNull) = None
   \<and> map (\<lambda>r. col r ''statut'') (colis (one_slot_store 3 5 [package_row 11 JNull ''livre'']))
       = [JStr ''livre'']
   \<and> status (fst (colis_put (one_slot_store 3 5 [package_row 11 JNull ''livre''])
        ''11'' (package_body JNull))) = 200
   \<and> map (\<lambda>r. col r ''statut'')
        (colis (snd (colis_put (one_slot_store 3 5 [package_row 11 JNull ''livre''])
           ''11'' (package_body JNull)))) = [JStr ''en_attente'']"
proof -
  let ?db = "one_slot_store 3 5 [package_row 11 JNull ''livre'']"
  have pk: "pk_ok (colis ?db)"
    by (simp add: example_rows store_simps)
  have pid: "pg_strtoint ''11'' = Some 11"
    by (simp add: pg_int_simps)
  have pkg: "package_row 11 JNull ''livre'' \<in> set (colis ?db)"
    "col (package_row 11 JNull ''livre'') ''id'' = JNum (of_int 11)"
    by (simp_all add: example_rows col_def)
  have before: "map (\<lambda>r. col r ''statut'') (colis ?db) = [JStr ''livre'']"
    by (simp add: example_rows col_def)
  have omitted: "''statut'' \<notin> set (keys (package_body JNull))"
    by (simp add: example_rows keys_def)
  have checks: "colis_put_checks (package_body JNull) = None"
    by (simp add: check_simps example_rows)
  have ref: "\<exists>k. int_param (js_get (package_body JNull) ''creneau_id'') = Some k
      \<and> (k = JNull \<or> where_id k (creneaux_expedition ?db) \<noteq> [])"
    by (simp add: example_rows js_get_def int_param_def)
  from colis_put_resets_status [OF pk pid pkg omitted checks ref]
  obtain r where "fst (colis_put ?db ''11'' (package_body JNull)) = Response 200 (RowJson r)"
    by auto
  then have ok: "status (fst (colis_put ?db ''11'' (package_body JNull))) = 200"
    by simp
  have valid: "\<not> id_invalid ''11''"
    by (simp add: parseInt_simps)
  have after: "map (\<lambda>r. col r ''statut'')
        (colis (snd (colis_put ?db ''11'' (package_body JNull)))) = [JStr ''en_attente'']"
    unfolding colis_put_def checks
    apply (simp add: valid)
    apply (simp add: pg_int_simps update_colis_def update_response_def coerce_cols_def
        example_rows js_get_def js_or_def any_param_def)
    apply (simp add: fk_ok_def sql_update_def where_id_def sql_eq_def Let_def col_def)
    done
  from pk pid omitted checks before ok after show ?thesis by simp
qed

end
